theory Spec2Isabelle
  imports Main
begin

section \<open>Python values, dictionaries and exceptions\<close>

text \<open>
  The library is Python 2 code (\<^verbatim>\<open>import urlparse\<close>, deleting from a dict while
  looping over \<^verbatim>\<open>meta.keys()\<close>, \<^verbatim>\<open>from __future__ import unicode_literals\<close>).
  A metadata value is whatever \<^verbatim>\<open>json.loads\<close> can return, plus the \<^verbatim>\<open>datetime.date\<close>
  that the computed default of the broadcast field produces. JSON numbers are
  modelled by integers.
\<close>

datatype date = Date (year: int) (month: int) (day: int)

datatype pyval =
    PyNone
  | PyBool bool
  | PyInt int
  | PyStr string
  | PyList "pyval list"
  | PyDict "(string \<times> pyval) list"
  | PyDate date

type_synonym dict = "string \<rightharpoonup> pyval"

text \<open>\<^verbatim>\<open>d.get(key)\<close>: the value, or \<^verbatim>\<open>None\<close> when the key is missing.\<close>

definition py_get :: "dict \<Rightarrow> string \<Rightarrow> pyval" where
  "py_get d k = (case d k of None \<Rightarrow> PyNone | Some v \<Rightarrow> v)"

text \<open>Truth value of an object, as \<^verbatim>\<open>if x:\<close> and \<^verbatim>\<open>elif x:\<close> test it.\<close>

fun truthy :: "pyval \<Rightarrow> bool" where
  "truthy PyNone = False"
| "truthy (PyBool b) = b"
| "truthy (PyInt n) = (n \<noteq> 0)"
| "truthy (PyStr s) = (s \<noteq> [])"
| "truthy (PyList xs) = (xs \<noteq> [])"
| "truthy (PyDict kvs) = (kvs \<noteq> [])"
| "truthy (PyDate d) = True"

text \<open>
  Exceptions are values: a class and the text that \<^verbatim>\<open>str(exc)\<close> gives. The classes
  are the ones the code raises or catches, with Python 2's hierarchy:
  \<^verbatim>\<open>UnicodeDecodeError\<close> and \<^verbatim>\<open>UnicodeEncodeError\<close> derive from \<^verbatim>\<open>ValueError\<close>;
  \<^verbatim>\<open>IOError\<close> and \<^verbatim>\<open>OSError\<close> are two distinct subclasses of \<^verbatim>\<open>EnvironmentError\<close>
  (they were merged only in Python 3.3); \<^verbatim>\<open>zipfile.BadZipfile\<close> derives from
  \<^verbatim>\<open>Exception\<close> directly; \<^verbatim>\<open>DecodeError\<close> and \<^verbatim>\<open>FormatError\<close> derive from the
  module's \<^verbatim>\<open>MetadataError\<close>.
\<close>

datatype exn_class =
    Exception
  | ValueError
  | UnicodeDecodeError
  | UnicodeEncodeError
  | TypeError
  | KeyError
  | AttributeError
  | AssertionError
  | EnvironmentError
  | IOError
  | OSError
  | BadZipfile
  | MetadataError
  | DecodeError
  | FormatError

datatype exn = Exn (cls: exn_class) (msg: string)

text \<open>The direct base class of each class (\<^verbatim>\<open>Exception\<close> is the root here).\<close>

fun base :: "exn_class \<Rightarrow> exn_class option" where
  "base Exception = None"
| "base UnicodeDecodeError = Some ValueError"
| "base UnicodeEncodeError = Some ValueError"
| "base IOError = Some EnvironmentError"
| "base OSError = Some EnvironmentError"
| "base DecodeError = Some MetadataError"
| "base FormatError = Some MetadataError"
| "base c = Some Exception"

text \<open>\<^verbatim>\<open>issubclass(c, d)\<close>; no chain of bases is longer than three.\<close>

definition issubclass :: "exn_class \<Rightarrow> exn_class \<Rightarrow> bool" where
  "issubclass c d =
     (c = d \<or> base c = Some d \<or>
      (case base c of None \<Rightarrow> False | Some b \<Rightarrow> base b = Some d))"

text \<open>\<^verbatim>\<open>except (C1, C2, ...)\<close> catches an exception that is an instance of one of them.\<close>

definition caught_by :: "exn \<Rightarrow> exn_class list \<Rightarrow> bool" where
  "caught_by e cs = list_ex (issubclass (cls e)) cs"

section \<open>The metadata specification (metadata.py)\<close>

definition RTL_LANGS :: "string list" where
  "RTL_LANGS = [''ar'', ''he'', ''ur'', ''yi'', ''ji'', ''iw'', ''fa'']"

text \<open>
  An entry of \<^verbatim>\<open>META_SPECIFICATION\<close>. The source reads each attribute with
  \<^verbatim>\<open>.get(name, fallback)\<close>; the record holds the value so read: \<^verbatim>\<open>default\<close> falls back
  to \<^verbatim>\<open>None\<close>, \<^verbatim>\<open>aliases\<close> to \<^verbatim>\<open>[]\<close>, \<^verbatim>\<open>required\<close> and \<^verbatim>\<open>auto\<close> to \<^verbatim>\<open>False\<close>.
  The only callable default is \<^verbatim>\<open>default_broadcast\<close>.
\<close>

datatype default_spec = Static pyval | Callable_default_broadcast

record field_spec =
  required :: bool
  auto :: bool
  default :: default_spec
  aliases :: "string list"

definition field :: field_spec where
  "field = \<lparr>required = False, auto = False, default = Static PyNone, aliases = []\<rparr>"

text \<open>
  The dictionaries of the specification are association lists in the order of the
  source text. A Python 2 dict is iterated in an order the language leaves open; the
  theorems below are stated so that they do not depend on it.
\<close>

definition META_SPECIFICATION :: "(string \<times> field_spec) list" where
  "META_SPECIFICATION =
    [(''url'', field\<lparr>required := True\<rparr>),
     (''title'', field\<lparr>required := True\<rparr>),
     (''images'', field\<lparr>default := Static (PyInt 0)\<rparr>),
     (''timestamp'', field\<lparr>required := True\<rparr>),
     (''keep_formatting'', field\<lparr>default := Static (PyBool False)\<rparr>),
     (''is_partner'', field\<lparr>default := Static (PyBool False)\<rparr>),
     (''is_sponsored'', field\<lparr>default := Static (PyBool False)\<rparr>),
     (''archive'', field\<lparr>default := Static (PyStr ''core'')\<rparr>),
     (''publisher'', field\<lparr>default := Static (PyStr ''''), aliases := [''partner'']\<rparr>),
     (''license'', field\<lparr>required := True\<rparr>),
     (''language'', field\<lparr>default := Static (PyStr '''')\<rparr>),
     (''multipage'', field\<lparr>default := Static (PyBool False)\<rparr>),
     (''entry_point'', field\<lparr>default := Static (PyStr ''index.html''), aliases := [''index'']\<rparr>),
     (''broadcast'', field\<lparr>required := False, default := Callable_default_broadcast\<rparr>),
     (''keywords'', field\<lparr>default := Static (PyStr '''')\<rparr>),
     (''md5'', field\<lparr>auto := True\<rparr>),
     (''size'', field\<lparr>auto := True\<rparr>),
     (''updated'', field\<lparr>auto := True\<rparr>)]"

definition STANDARD_FIELDS :: "(string \<times> field_spec) list" where
  "STANDARD_FIELDS = filter (\<lambda>(k, v). \<not> auto v) META_SPECIFICATION"

definition REQUIRED_KEYS :: "string list" where
  "REQUIRED_KEYS = map fst (filter (\<lambda>(k, v). required v) META_SPECIFICATION)"

text \<open>
  A missing key raises \<^verbatim>\<open>KeyError(key)\<close>, whose text is \<^verbatim>\<open>repr(key)\<close>. The keys are
  unicode strings (the module has \<^verbatim>\<open>unicode_literals\<close>, and \<^verbatim>\<open>json.loads\<close> gives
  unicode), here with code points below 256. The \<^verbatim>\<open>repr\<close> of such a string is \<^verbatim>\<open>u\<close>
  and the quoted text: the quote is a double quote when the text has a single quote and
  no double quote, and a single quote otherwise; the quote and the backslash are escaped
  with a backslash, tab, newline and carriage return are written \<^verbatim>\<open>\t\<close>, \<^verbatim>\<open>\n\<close>,
  \<^verbatim>\<open>\r\<close>, and every other character below 32 or from 127 on is written \<^verbatim>\<open>\xNN\<close>.
\<close>

definition hex_digit :: "nat \<Rightarrow> char" where
  "hex_digit d = ''0123456789abcdef'' ! d"

definition escape_char :: "char \<Rightarrow> char \<Rightarrow> string" where
  "escape_char q c =
     (let n = (of_char c :: nat) in
      if c = q \<or> c = CHR 0x5C then [CHR 0x5C, c]
      else if n = 9 then [CHR 0x5C, CHR ''t'']
      else if n = 10 then [CHR 0x5C, CHR ''n'']
      else if n = 13 then [CHR 0x5C, CHR ''r'']
      else if n < 32 \<or> 127 \<le> n
        then [CHR 0x5C, CHR ''x'', hex_digit (n div 16), hex_digit (n mod 16)]
      else [c])"

definition py_repr :: "string \<Rightarrow> string" where
  "py_repr s =
     (let q = (if CHR 0x27 \<in> set s \<and> CHR 0x22 \<notin> set s then CHR 0x22 else CHR 0x27)
      in ''u'' @ [q] @ concat (map (escape_char q) s) @ [q])"

text \<open>\<^verbatim>\<open>STANDARD_FIELDS[key]\<close> raises \<^verbatim>\<open>KeyError\<close> for a key that is not a standard field.\<close>

definition key_error :: "string \<Rightarrow> exn" where
  "key_error k = Exn KeyError (py_repr k)"

definition standard_field :: "string \<Rightarrow> exn + field_spec" where
  "standard_field k =
     (case map_of STANDARD_FIELDS k of None \<Rightarrow> Inl (key_error k) | Some v \<Rightarrow> Inr v)"

text \<open>
  \<^verbatim>\<open>dateutil.parser.parse(x).date()\<close> belongs to a library: it is a parameter, which
  returns the date or the exception raised.
\<close>

type_synonym date_parser = "pyval \<Rightarrow> exn + date"

definition default_broadcast :: "date_parser \<Rightarrow> string \<Rightarrow> dict \<Rightarrow> exn + pyval" where
  "default_broadcast parse k m =
     (case m ''timestamp'' of
        None \<Rightarrow> Inl (key_error ''timestamp'')
      | Some ts \<Rightarrow> (case parse ts of Inl e \<Rightarrow> Inl e | Inr d \<Rightarrow> Inr (PyDate d)))"

definition get_default_value :: "date_parser \<Rightarrow> string \<Rightarrow> dict \<Rightarrow> exn + pyval" where
  "get_default_value parse k m =
     (case standard_field k of
        Inl e \<Rightarrow> Inl e
      | Inr v \<Rightarrow>
          (case default v of
             Callable_default_broadcast \<Rightarrow> default_broadcast parse k m
           | Static d \<Rightarrow> Inr d))"

definition get_aliases_for :: "string \<Rightarrow> exn + string list" where
  "get_aliases_for k =
     (case standard_field k of Inl e \<Rightarrow> Inl e | Inr v \<Rightarrow> Inr (aliases v))"

definition is_required :: "string \<Rightarrow> exn + bool" where
  "is_required k =
     (case standard_field k of Inl e \<Rightarrow> Inl e | Inr v \<Rightarrow> Inr (required v))"

text \<open>
  \<^verbatim>\<open>add_missing_keys\<close> updates the dict in place, key by key; the model returns the
  updated dict, or the exception that computing a default raised.
\<close>

fun add_missing_keys_loop :: "date_parser \<Rightarrow> string list \<Rightarrow> dict \<Rightarrow> exn + dict" where
  "add_missing_keys_loop parse [] m = Inr m"
| "add_missing_keys_loop parse (k # ks) m =
     (if m k = None then
        (case get_default_value parse k m of
           Inl e \<Rightarrow> Inl e
         | Inr v \<Rightarrow> add_missing_keys_loop parse ks (m(k \<mapsto> v)))
      else add_missing_keys_loop parse ks m)"

definition add_missing_keys :: "date_parser \<Rightarrow> dict \<Rightarrow> exn + dict" where
  "add_missing_keys parse m = add_missing_keys_loop parse (map fst STANDARD_FIELDS) m"

text \<open>The inner loop of \<^verbatim>\<open>replace_aliases\<close>: \<^verbatim>\<open>meta[key] = meta.pop(alias)\<close> for each
  alias that is in the dict.\<close>

fun pop_aliases :: "string \<Rightarrow> string list \<Rightarrow> dict \<Rightarrow> dict" where
  "pop_aliases k [] m = m"
| "pop_aliases k (a # as) m =
     pop_aliases k as
       (case m a of None \<Rightarrow> m | Some v \<Rightarrow> (m(a := None))(k \<mapsto> v))"

fun replace_aliases_loop :: "string list \<Rightarrow> dict \<Rightarrow> exn + dict" where
  "replace_aliases_loop [] m = Inr m"
| "replace_aliases_loop (k # ks) m =
     (if m k = None then
        (case get_aliases_for k of
           Inl e \<Rightarrow> Inl e
         | Inr as \<Rightarrow> replace_aliases_loop ks (pop_aliases k as m))
      else replace_aliases_loop ks m)"

definition replace_aliases :: "dict \<Rightarrow> exn + dict" where
  "replace_aliases m = replace_aliases_loop (map fst STANDARD_FIELDS) m"

text \<open>\<^verbatim>\<open>clean_keys\<close> deletes every key that is not a standard field.\<close>

definition clean_keys :: "dict \<Rightarrow> dict" where
  "clean_keys m = (\<lambda>k. if k \<in> set (map fst STANDARD_FIELDS) then m k else None)"

text \<open>\<^verbatim>\<open>"'%s'" % s\<close>\<close>

definition quoted :: "string \<Rightarrow> string" where
  "quoted s = [CHR 0x27] @ s @ [CHR 0x27]"

definition mandatory_key_missing :: "string \<Rightarrow> exn" where
  "mandatory_key_missing k = Exn FormatError (''Mandatory key '' @ quoted k @ '' missing'')"

text \<open>The loop of \<^verbatim>\<open>convert_json\<close> that looks for a missing mandatory key;
  \<^verbatim>\<open>is_required\<close> is called only for a key that is not in the dict.\<close>

fun check_required :: "string list \<Rightarrow> dict \<Rightarrow> exn + unit" where
  "check_required [] m = Inr ()"
| "check_required (k # ks) m =
     (if m k = None then
        (case is_required k of
           Inl e \<Rightarrow> Inl e
         | Inr r \<Rightarrow> if r then Inl (mandatory_key_missing k) else check_required ks m)
      else check_required ks m)"

text \<open>
  The expression \<^verbatim>\<open>str(meta.decode('utf8'))\<close> of \<^verbatim>\<open>convert_json\<close>, in Python 2.
  \<^verbatim>\<open>meta.decode('utf8')\<close> belongs to the interpreter: \<open>utf8\<close> is a parameter, which
  gives the code points of the unicode object or the \<^verbatim>\<open>UnicodeDecodeError\<close> raised.
  \<^verbatim>\<open>str\<close> of a unicode object encodes it with the ASCII codec: it raises
  \<^verbatim>\<open>UnicodeEncodeError\<close> when a code point is 128 or more. The interpreter formats the
  text of that error from the offending characters and their position; \<open>error_text\<close>
  stands for that formatting.
\<close>

type_synonym unicode = "nat list"

definition py_str :: "(unicode \<Rightarrow> string) \<Rightarrow> unicode \<Rightarrow> exn + string" where
  "py_str error_text u =
     (if list_all (\<lambda>c. c < 128) u then Inr (map char_of u)
      else Inl (Exn UnicodeEncodeError (error_text u)))"

definition str_decode ::
  "(string \<Rightarrow> exn + unicode) \<Rightarrow> (unicode \<Rightarrow> string) \<Rightarrow> string \<Rightarrow> exn + string" where
  "str_decode utf8 error_text raw =
     (case utf8 raw of Inl e \<Rightarrow> Inl e | Inr u \<Rightarrow> py_str error_text u)"

text \<open>
  \<^verbatim>\<open>convert_json\<close>. Its two library calls are parameters: \<open>decode\<close> is the evaluation
  of \<^verbatim>\<open>str(meta.decode('utf8'))\<close>, which \<open>str_decode\<close> above spells out, and \<open>loads\<close> is
  \<^verbatim>\<open>json.loads\<close>, each returning its value or the exception raised. The metadata of a
  content bundle is a JSON object, and \<open>loads\<close> returns the dict of that object. An
  exception that no \<^verbatim>\<open>except\<close> clause catches leaves the function unchanged.
\<close>

definition convert_json ::
  "(string \<Rightarrow> exn + string) \<Rightarrow> (string \<Rightarrow> exn + dict) \<Rightarrow> date_parser \<Rightarrow> string \<Rightarrow> exn + dict" where
  "convert_json decode loads parse raw =
     (case decode raw of
        Inl err \<Rightarrow>
          if caught_by err [UnicodeDecodeError]
          then Inl (Exn DecodeError (''Failed to decode metadata: '' @ quoted (msg err)))
          else Inl err
      | Inr text \<Rightarrow>
          (case loads text of
             Inl err \<Rightarrow>
               if caught_by err [ValueError] then Inl (Exn DecodeError ''Invalid JSON'')
               else Inl err
           | Inr loaded \<Rightarrow>
               (case replace_aliases loaded of
                  Inl e \<Rightarrow> Inl e
                | Inr m \<Rightarrow>
                    (case check_required (map fst STANDARD_FIELDS) m of
                       Inl e \<Rightarrow> Inl e
                     | Inr u \<Rightarrow>
                         (case add_missing_keys parse m of
                            Inl exc \<Rightarrow>
                              if caught_by exc [Exception]
                              then Inl (Exn DecodeError
                                     (''Failed to add default values: '' @ quoted (msg exc)))
                              else Inl exc
                          | Inr m' \<Rightarrow> Inr m')))))"

section \<open>The metadata wrapper (class Meta)\<close>

text \<open>
  The attributes of a \<^verbatim>\<open>Meta\<close> object: the wrapped dict, the tag mapping (tag name to
  tag id) decoded from its \<^verbatim>\<open>tags\<close> key, the cached cover file name \<^verbatim>\<open>_image\<close>, the
  cover directory and the optional path of the zip file.
\<close>

record Meta =
  meta :: dict
  tags :: "string \<rightharpoonup> int"
  image_cache :: "string option"
  cover_dir :: string
  zip_path :: "string option"

definition lang :: "Meta \<Rightarrow> pyval" where
  "lang self = py_get (meta self) ''language''"

definition rtl :: "Meta \<Rightarrow> bool" where
  "rtl self = (lang self \<in> set (map PyStr RTL_LANGS))"

definition label :: "Meta \<Rightarrow> string" where
  "label self =
     (if py_get (meta self) ''archive'' = PyStr ''core'' then ''core''
      else if truthy (py_get (meta self) ''is_sponsored'') then ''sponsored''
      else if truthy (py_get (meta self) ''is_partner'') then ''partner''
      else ''core'')"

text \<open>\<^verbatim>\<open>__getattr__\<close>: a key of the wrapped dict read as an attribute, such as
  \<^verbatim>\<open>self.md5\<close>.\<close>

definition getattr_meta :: "Meta \<Rightarrow> string \<Rightarrow> exn + pyval" where
  "getattr_meta self attr =
     (case meta self attr of
        None \<Rightarrow> Inl (Exn AttributeError (''Attribute or key '' @ quoted attr @ '' not found''))
      | Some v \<Rightarrow> Inr v)"

subsection \<open>Paths (posixpath)\<close>

text \<open>\<^verbatim>\<open>p.rfind(c)\<close>: the last index of the character, or -1.\<close>

definition rfind :: "char \<Rightarrow> string \<Rightarrow> int" where
  "rfind c p =
     (if c \<in> set p then int (length p) - 1 - int (length (takeWhile (\<lambda>x. x \<noteq> c) (rev p)))
      else - 1)"

text \<open>\<^verbatim>\<open>os.path.splitext\<close>: the extension starts at the last dot of the last path
  component, unless only dots come before it in that component.\<close>

definition splitext :: "string \<Rightarrow> string \<times> string" where
  "splitext p =
     (let sepIndex = rfind (CHR ''/'') p; dotIndex = rfind (CHR ''.'') p in
      if dotIndex > sepIndex \<and>
         list_ex (\<lambda>ch. ch \<noteq> CHR ''.'')
           (take (nat (dotIndex - (sepIndex + 1))) (drop (nat (sepIndex + 1)) p))
      then (take (nat dotIndex) p, drop (nat dotIndex) p)
      else (p, []))"

definition basename :: "string \<Rightarrow> string" where
  "basename p = drop (nat (rfind (CHR ''/'') p + 1)) p"

text \<open>\<^verbatim>\<open>os.path.join(a, b)\<close> with two arguments.\<close>

definition path_join :: "string \<Rightarrow> string \<Rightarrow> string" where
  "path_join a b =
     (if b \<noteq> [] \<and> hd b = CHR ''/'' then b
      else if a = [] \<or> last a = CHR ''/'' then a @ b
      else a @ ''/'' @ b)"

text \<open>\<^verbatim>\<open>s.lower()\<close> on the ASCII letters.\<close>

definition lower_char :: "char \<Rightarrow> char" where
  "lower_char c =
     (let n = (of_char c :: nat) in if 65 \<le> n \<and> n \<le> 90 then char_of (n + 32) else c)"

definition lower :: "string \<Rightarrow> string" where
  "lower s = map lower_char s"

subsection \<open>The file system and the cover image\<close>

text \<open>
  What the wrapper asks of the operating system and of the interpreter is a
  record of functions: \<open>glob\<close> is \<^verbatim>\<open>glob.glob\<close>; \<open>open_zip\<close> is \<^verbatim>\<open>open(path, 'rb')\<close>
  followed by \<^verbatim>\<open>zipfile.ZipFile(f)\<close> and gives the members of the archive in the
  order of \<^verbatim>\<open>namelist()\<close>, each with the outcome of reading it, or the exception raised;
  \<open>write_file\<close> is \<^verbatim>\<open>open(path, 'wb')\<close> followed by \<^verbatim>\<open>f.write(content)\<close> and
  gives the exception raised, if any; \<open>str_of\<close> is the text that \<^verbatim>\<open>'%s'\<close> formats a
  value to. Logging has no effect on the result and is left out.
\<close>

type_synonym zip_members = "(string \<times> (exn + string)) list"

record runtime =
  glob :: "string \<Rightarrow> string list"
  open_zip :: "string \<Rightarrow> exn + zip_members"
  write_file :: "string \<Rightarrow> string \<Rightarrow> exn option"
  str_of :: "pyval \<Rightarrow> string"

definition IMAGE_EXTENSIONS :: "string list" where
  "IMAGE_EXTENSIONS = [''.png'', ''.gif'', ''.jpg'', ''.jpeg'']"

definition cache_cover :: "runtime \<Rightarrow> Meta \<Rightarrow> string \<Rightarrow> string \<Rightarrow> exn + string" where
  "cache_cover rt self ext content =
     (case getattr_meta self ''md5'' of
        Inl e \<Rightarrow> Inl e
      | Inr h \<Rightarrow>
          (let cover_path = path_join (cover_dir self) (str_of rt h @ ext) in
           case write_file rt cover_path content of
             Some e \<Rightarrow> Inl e
           | None \<Rightarrow> Inr (basename cover_path)))"

text \<open>The loop of \<^verbatim>\<open>extract_image\<close> over the names of the archive.\<close>

fun first_image :: "zip_members \<Rightarrow> exn + (string option \<times> string option)" where
  "first_image [] = Inr (None, None)"
| "first_image ((name, data) # rest) =
     (let extension = lower (snd (splitext name)) in
      if extension \<in> set IMAGE_EXTENSIONS then
        (case data of
           Inl e \<Rightarrow> Inl e
         | Inr content \<Rightarrow> Inr (Some extension, Some content))
      else first_image rest)"

text \<open>\<^verbatim>\<open>open(None, 'rb')\<close> raises \<^verbatim>\<open>TypeError\<close>.\<close>

definition extract_image :: "runtime \<Rightarrow> Meta \<Rightarrow> exn + (string option \<times> string option)" where
  "extract_image rt self =
     (case zip_path self of
        None \<Rightarrow> Inl (Exn TypeError ''coercing to Unicode: need string or buffer, NoneType found'')
      | Some p \<Rightarrow>
          (case open_zip rt p of
             Inl e \<Rightarrow> Inl e
           | Inr z \<Rightarrow> first_image z))"

definition get_cover_path :: "runtime \<Rightarrow> Meta \<Rightarrow> exn + string option" where
  "get_cover_path rt self =
     (case getattr_meta self ''md5'' of
        Inl e \<Rightarrow> Inl e
      | Inr h \<Rightarrow>
          (case glob rt (path_join (cover_dir self) (str_of rt h @ ''.*'')) of
             [] \<Rightarrow> Inr None
           | g0 # g \<Rightarrow> Inr (Some (basename g0))))"

text \<open>
  The function under \<^verbatim>\<open>@property\<close> that computes \<^verbatim>\<open>image\<close>: the result (a file name,
  \<^verbatim>\<open>None\<close>, or the exception that leaves the function) and the object with its
  \<^verbatim>\<open>_image\<close> attribute as the call leaves it.
\<close>

definition image_getter :: "runtime \<Rightarrow> Meta \<Rightarrow> (exn + string option) \<times> Meta" where
  "image_getter rt self =
     (if image_cache self \<noteq> None then (Inr (image_cache self), self)
      else
        (case get_cover_path rt self of
           Inl e \<Rightarrow> (Inl e, self)
         | Inr cover \<Rightarrow>
             if cover \<noteq> None \<and> cover \<noteq> Some [] then (Inr cover, self\<lparr>image_cache := cover\<rparr>)
             else if zip_path self = None \<or> zip_path self = Some [] then (Inr None, self)
             else
               (case extract_image rt self of
                  Inl e \<Rightarrow>
                    if caught_by e [TypeError, OSError] then (Inr None, self) else (Inl e, self)
                | Inr (None, content) \<Rightarrow> (Inr None, self)
                | Inr (Some extension, None) \<Rightarrow> (Inr None, self)
                | Inr (Some extension, Some content) \<Rightarrow>
                    (case cache_cover rt self extension content of
                       Inl e \<Rightarrow> if caught_by e [OSError] then (Inr None, self) else (Inl e, self)
                     | Inr name \<Rightarrow> (Inr (Some name), self\<lparr>image_cache := Some name\<rparr>)))))"

text \<open>
  Reading the attribute \<^verbatim>\<open>meta.image\<close>. The value is the one the property function
  returns. When that function raises \<^verbatim>\<open>AttributeError\<close> (the dict has no \<^verbatim>\<open>md5\<close>),
  the attribute lookup falls back to \<^verbatim>\<open>__getattr__('image')\<close>, which reads the key
  \<^verbatim>\<open>image\<close> of the wrapped dict. Any other exception leaves the attribute read.
\<close>

definition image :: "runtime \<Rightarrow> Meta \<Rightarrow> (exn + pyval) \<times> Meta" where
  "image rt self =
     (case image_getter rt self of
        (Inl e, self') \<Rightarrow>
          if caught_by e [AttributeError] then (getattr_meta self' ''image'', self')
          else (Inl e, self')
      | (Inr None, self') \<Rightarrow> (Inr PyNone, self')
      | (Inr (Some name), self') \<Rightarrow> (Inr (PyStr name), self'))"

section \<open>The archive index (EmbeddedArchive)\<close>

text \<open>
  The archive talks to a relational store. The store is a record of its three tables and
  of the statements executed on it so far. A row of \<^verbatim>\<open>zipballs\<close> has the content hash,
  the view count, the tag mapping that its \<^verbatim>\<open>tags\<close> column holds as JSON text, and
  the remaining columns. A value bound to a statement is stored and compared as it is.
\<close>

record zipball =
  z_md5 :: pyval
  z_views :: int
  z_tags :: "string \<rightharpoonup> int"
  z_columns :: dict

datatype statement =
    Update_views pyval
  | Insert_tags "string list"
  | Select_tags "string list"
  | Insert_taggings pyval "int list"
  | Delete_taggings pyval "int list"
  | Update_tags pyval

record database =
  zipballs :: "zipball list"
  tags_table :: "(int \<times> string) list"
  taggings :: "(int \<times> pyval) list"
  executed :: "statement list"

definition query :: "statement \<Rightarrow> database \<Rightarrow> database" where
  "query q db = db\<lparr>executed := executed db @ [q]\<rparr>"

text \<open>\<^verbatim>\<open>UPDATE zipballs SET views = views + 1 WHERE md5 = ?\<close> and its row count.\<close>

definition update_views :: "pyval \<Rightarrow> database \<Rightarrow> database" where
  "update_views h db =
     query (Update_views h)
       (db\<lparr>zipballs :=
          map (\<lambda>r. if z_md5 r = h then r\<lparr>z_views := z_views r + 1\<rparr> else r) (zipballs db)\<rparr>)"

definition matching :: "pyval \<Rightarrow> database \<Rightarrow> zipball list" where
  "matching h db = filter (\<lambda>r. z_md5 r = h) (zipballs db)"

text \<open>
  \<^verbatim>\<open>add_view\<close>: the store after the statement, and the row count returned or the
  \<^verbatim>\<open>AssertionError\<close> of the \<^verbatim>\<open>assert\<close> (assertions are on unless the interpreter runs
  with \<^verbatim>\<open>-O\<close>).
\<close>

definition add_view :: "database \<Rightarrow> pyval \<Rightarrow> (exn + int) \<times> database" where
  "add_view db h =
     (let rowcount = int (length (matching h db)); db' = update_views h db in
      if rowcount = 1 then (Inr rowcount, db')
      else (Inl (Exn AssertionError ''Updated more than one row''), db'))"

text \<open>
  Modelled from the spec: the schema of the \<^verbatim>\<open>tags\<close> and \<^verbatim>\<open>taggings\<close> tables, which
  the sources do not contain. A tag is a name with a numeric id and is unique by name;
  adding tags ensures that the tag rows exist, so inserting a name that has a row leaves
  the table as it is, and a new name gets the next id. A tagging associates a tag id
  with a content hash, and an association that exists is not added again.
\<close>

definition next_tag_id :: "(int \<times> string) list \<Rightarrow> int" where
  "next_tag_id rows = fold max (map fst rows) 0 + 1"

definition insert_tag :: "string \<Rightarrow> (int \<times> string) list \<Rightarrow> (int \<times> string) list" where
  "insert_tag name rows =
     (if name \<in> set (map snd rows) then rows else rows @ [(next_tag_id rows, name)])"

definition insert_tagging :: "pyval \<Rightarrow> int \<Rightarrow> (int \<times> pyval) list \<Rightarrow> (int \<times> pyval) list" where
  "insert_tagging h i rows = (if (i, h) \<in> set rows then rows else rows @ [(i, h)])"

text \<open>The statements of \<^verbatim>\<open>add_tags\<close> and \<^verbatim>\<open>remove_tags\<close>.\<close>

definition insert_tags :: "string list \<Rightarrow> database \<Rightarrow> database" where
  "insert_tags names db =
     query (Insert_tags names) (db\<lparr>tags_table := fold insert_tag names (tags_table db)\<rparr>)"

definition select_tags :: "string list \<Rightarrow> database \<Rightarrow> (int \<times> string) list" where
  "select_tags names db = filter (\<lambda>(i, n). n \<in> set names) (tags_table db)"

definition insert_taggings :: "pyval \<Rightarrow> int list \<Rightarrow> database \<Rightarrow> database" where
  "insert_taggings h ids db =
     query (Insert_taggings h ids) (db\<lparr>taggings := fold (insert_tagging h) ids (taggings db)\<rparr>)"

definition delete_taggings :: "pyval \<Rightarrow> int list \<Rightarrow> database \<Rightarrow> database" where
  "delete_taggings h ids db =
     query (Delete_taggings h ids)
       (db\<lparr>taggings := filter (\<lambda>(i, h'). \<not> (h' = h \<and> i \<in> set ids)) (taggings db)\<rparr>)"

definition update_tags :: "pyval \<Rightarrow> (string \<rightharpoonup> int) \<Rightarrow> database \<Rightarrow> database" where
  "update_tags h t db =
     query (Update_tags h)
       (db\<lparr>zipballs := map (\<lambda>r. if z_md5 r = h then r\<lparr>z_tags := t\<rparr> else r) (zipballs db)\<rparr>)"

text \<open>\<^verbatim>\<open>{t['name']: t['tag_id'] for t in tags}\<close>\<close>

definition tags_dict :: "(int \<times> string) list \<Rightarrow> (string \<rightharpoonup> int)" where
  "tags_dict rows = fold (\<lambda>(i, n) d. d(n \<mapsto> i)) rows Map.empty"

text \<open>
  \<^verbatim>\<open>add_tags\<close>: the value returned (the selected tag rows, or \<^verbatim>\<open>None\<close> from the early
  return) or the exception raised, the store, and the content object with its tag
  mapping as the call leaves it. The first transaction and the select are done and the
  mapping is updated before \<^verbatim>\<open>meta.md5\<close> is read, in the second transaction, which is
  rolled back when that read fails.
\<close>

definition add_tags ::
  "database \<Rightarrow> Meta \<Rightarrow> string list \<Rightarrow> (exn + (int \<times> string) list option) \<times> database \<times> Meta" where
  "add_tags db self names =
     (if names = [] then (Inr None, db, self)
      else
        (let db1 = insert_tags names db;
             rows = select_tags names db1;
             db2 = query (Select_tags names) db1;
             ids = map fst rows;
             self' = self\<lparr>tags := tags self ++ tags_dict rows\<rparr>
         in case getattr_meta self ''md5'' of
              Inl e \<Rightarrow> (Inl e, db2, self')
            | Inr h \<Rightarrow>
                (Inr (Some rows), update_tags h (tags self') (insert_taggings h ids db2), self')))"

text \<open>\<^verbatim>\<open>[meta.tags[name] for name in tags]\<close>, with the \<^verbatim>\<open>KeyError\<close> of a name that the
  mapping does not have.\<close>

fun tag_ids_of :: "(string \<rightharpoonup> int) \<Rightarrow> string list \<Rightarrow> exn + int list" where
  "tag_ids_of t [] = Inr []"
| "tag_ids_of t (name # names) =
     (case t name of
        None \<Rightarrow> Inl (key_error name)
      | Some i \<Rightarrow> (case tag_ids_of t names of Inl e \<Rightarrow> Inl e | Inr ids \<Rightarrow> Inr (i # ids)))"

definition remove_tags ::
  "database \<Rightarrow> Meta \<Rightarrow> string list \<Rightarrow> (exn + unit) \<times> database \<times> Meta" where
  "remove_tags db self names =
     (if names = [] then (Inr (), db, self)
      else
        (case tag_ids_of (tags self) names of
           Inl e \<Rightarrow> (Inl e, db, self)
         | Inr tag_ids \<Rightarrow>
             (let self' = self\<lparr>tags := (\<lambda>n. if n \<in> set names then None else tags self n)\<rparr>
              in case getattr_meta self ''md5'' of
                   Inl e \<Rightarrow> (Inl e, db, self')
                 | Inr h \<Rightarrow>
                     (Inr (), update_tags h (tags self') (delete_taggings h tag_ids db), self'))))"

section \<open>The metadata wrapper: language direction and label\<close>

text \<open>
  Claim C8: the \<open>rtl\<close> property of a \<open>Meta\<close> is true if and only if the language field
  of the wrapped record is one of 'ar', 'he', 'ur', 'yi', 'ji', 'iw', 'fa'.
\<close>

theorem rtl_iff_language:
  "rtl self \<longleftrightarrow>
     meta self ''language'' \<in>
       {Some (PyStr ''ar''), Some (PyStr ''he''), Some (PyStr ''ur''), Some (PyStr ''yi''),
        Some (PyStr ''ji''), Some (PyStr ''iw''), Some (PyStr ''fa'')}"
  by (auto simp: rtl_def lang_def py_get_def RTL_LANGS_def split: option.splits)

text \<open>
  Claim C9: the \<open>label\<close> property is one of 'core', 'sponsored', 'partner'. It is 'core'
  when the archive field is 'core', whatever the two flags are; otherwise 'sponsored' when
  \<open>is_sponsored\<close> is true, otherwise 'partner' when \<open>is_partner\<close> is true, otherwise 'core'.
\<close>

theorem label_precedence:
  "label self \<in> {''core'', ''sponsored'', ''partner''} \<and>
   (py_get (meta self) ''archive'' = PyStr ''core'' \<longrightarrow> label self = ''core'') \<and>
   (py_get (meta self) ''archive'' \<noteq> PyStr ''core'' \<longrightarrow>
      (truthy (py_get (meta self) ''is_sponsored'') \<longrightarrow> label self = ''sponsored'') \<and>
      (\<not> truthy (py_get (meta self) ''is_sponsored'') \<longrightarrow>
         (truthy (py_get (meta self) ''is_partner'') \<longrightarrow> label self = ''partner'') \<and>
         (\<not> truthy (py_get (meta self) ''is_partner'') \<longrightarrow> label self = ''core'')))"
  by (simp add: label_def)

theorem label_precedence_witness:
  "label \<lparr>meta = [''archive'' \<mapsto> PyStr ''core'', ''is_sponsored'' \<mapsto> PyBool True,
                   ''is_partner'' \<mapsto> PyBool True],
          tags = Map.empty, image_cache = None, cover_dir = ''covers'', zip_path = None\<rparr> = ''core'' \<and>
   label \<lparr>meta = [''archive'' \<mapsto> PyStr ''ephem'', ''is_sponsored'' \<mapsto> PyBool True,
                   ''is_partner'' \<mapsto> PyBool True],
          tags = Map.empty, image_cache = None, cover_dir = ''covers'', zip_path = None\<rparr> = ''sponsored'' \<and>
   label \<lparr>meta = [''archive'' \<mapsto> PyStr ''ephem'', ''is_partner'' \<mapsto> PyInt 1],
          tags = Map.empty, image_cache = None, cover_dir = ''covers'', zip_path = None\<rparr> = ''partner'' \<and>
   label \<lparr>meta = [''is_sponsored'' \<mapsto> PyStr ''''],
          tags = Map.empty, image_cache = None, cover_dir = ''covers'', zip_path = None\<rparr> = ''core''"
  using
    label_precedence [of "\<lparr>meta = [''archive'' \<mapsto> PyStr ''core'', ''is_sponsored'' \<mapsto> PyBool True,
                   ''is_partner'' \<mapsto> PyBool True],
          tags = Map.empty, image_cache = None, cover_dir = ''covers'', zip_path = None\<rparr>"]
    label_precedence [of "\<lparr>meta = [''archive'' \<mapsto> PyStr ''ephem'', ''is_sponsored'' \<mapsto> PyBool True,
                   ''is_partner'' \<mapsto> PyBool True],
          tags = Map.empty, image_cache = None, cover_dir = ''covers'', zip_path = None\<rparr>"]
    label_precedence [of "\<lparr>meta = [''archive'' \<mapsto> PyStr ''ephem'', ''is_partner'' \<mapsto> PyInt 1],
          tags = Map.empty, image_cache = None, cover_dir = ''covers'', zip_path = None\<rparr>"]
    label_precedence [of "\<lparr>meta = [''is_sponsored'' \<mapsto> PyStr ''''],
          tags = Map.empty, image_cache = None, cover_dir = ''covers'', zip_path = None\<rparr>"]
  by (simp add: py_get_def)

section \<open>The archive index: view counts and empty tag sets\<close>

lemma matching_update_views:
  "matching h (update_views h db) = map (\<lambda>r. r\<lparr>z_views := z_views r + 1\<rparr>) (matching h db)"
  by (simp add: matching_def update_views_def query_def filter_map o_def cong: filter_cong)

lemma filter_others_bump:
  "filter (\<lambda>x. z_md5 x \<noteq> h)
     (map (\<lambda>r. if z_md5 r = h then r\<lparr>z_views := z_views r + 1\<rparr> else r) rs) =
   filter (\<lambda>x. z_md5 x \<noteq> h) rs"
  by (induction rs) auto

lemma others_update_views:
  "filter (\<lambda>x. z_md5 x \<noteq> h) (zipballs (update_views h db)) = filter (\<lambda>x. z_md5 x \<noteq> h) (zipballs db)"
  by (simp add: update_views_def query_def filter_others_bump)

lemma update_views_no_match:
  "matching h db = [] \<Longrightarrow> zipballs (update_views h db) = zipballs db"
  by (simp add: matching_def update_views_def query_def filter_empty_conv map_idI)

text \<open>
  Claim C5: when no row of \<open>zipballs\<close> has the given md5, \<open>add_view\<close> updates no row and
  raises the assertion error; when exactly one row has it, \<open>add_view\<close> succeeds, the view
  count of that row is one more, and the other rows are as they were.
\<close>

theorem add_view_rowcount:
  "(matching h db = [] \<longrightarrow>
      fst (add_view db h) = Inl (Exn AssertionError ''Updated more than one row'') \<and>
      zipballs (snd (add_view db h)) = zipballs db) \<and>
   (\<forall>r. matching h db = [r] \<longrightarrow>
      fst (add_view db h) = Inr 1 \<and>
      matching h (snd (add_view db h)) = [r\<lparr>z_views := z_views r + 1\<rparr>] \<and>
      filter (\<lambda>x. z_md5 x \<noteq> h) (zipballs (snd (add_view db h))) =
        filter (\<lambda>x. z_md5 x \<noteq> h) (zipballs db))"
proof (intro conjI impI allI)
  assume "matching h db = []"
  then show "fst (add_view db h) = Inl (Exn AssertionError ''Updated more than one row'')"
    by (simp add: add_view_def Let_def)
next
  assume "matching h db = []"
  then show "zipballs (snd (add_view db h)) = zipballs db"
    by (simp add: add_view_def Let_def update_views_no_match)
next
  fix r assume "matching h db = [r]"
  then show "fst (add_view db h) = Inr 1"
    by (simp add: add_view_def Let_def)
next
  fix r assume "matching h db = [r]"
  then show "matching h (snd (add_view db h)) = [r\<lparr>z_views := z_views r + 1\<rparr>]"
    by (simp add: add_view_def Let_def matching_update_views)
next
  fix r assume "matching h db = [r]"
  then show "filter (\<lambda>x. z_md5 x \<noteq> h) (zipballs (snd (add_view db h))) =
        filter (\<lambda>x. z_md5 x \<noteq> h) (zipballs db)"
    by (simp add: add_view_def Let_def others_update_views)
qed

theorem add_view_rowcount_witness:
  "fst (add_view
      \<lparr>zipballs = [\<lparr>z_md5 = PyStr ''abc'', z_views = 3, z_tags = Map.empty, z_columns = Map.empty\<rparr>,
                   \<lparr>z_md5 = PyStr ''def'', z_views = 7, z_tags = Map.empty, z_columns = Map.empty\<rparr>],
       tags_table = [], taggings = [], executed = []\<rparr> (PyStr ''abc'')) = Inr 1 \<and>
   matching (PyStr ''abc'') (snd (add_view
      \<lparr>zipballs = [\<lparr>z_md5 = PyStr ''abc'', z_views = 3, z_tags = Map.empty, z_columns = Map.empty\<rparr>,
                   \<lparr>z_md5 = PyStr ''def'', z_views = 7, z_tags = Map.empty, z_columns = Map.empty\<rparr>],
       tags_table = [], taggings = [], executed = []\<rparr> (PyStr ''abc''))) =
     [\<lparr>z_md5 = PyStr ''abc'', z_views = 4, z_tags = Map.empty, z_columns = Map.empty\<rparr>] \<and>
   fst (add_view
      \<lparr>zipballs = [\<lparr>z_md5 = PyStr ''abc'', z_views = 3, z_tags = Map.empty, z_columns = Map.empty\<rparr>,
                   \<lparr>z_md5 = PyStr ''def'', z_views = 7, z_tags = Map.empty, z_columns = Map.empty\<rparr>],
       tags_table = [], taggings = [], executed = []\<rparr> (PyStr ''xyz'')) =
     Inl (Exn AssertionError ''Updated more than one row'')"
  using
    add_view_rowcount [of "PyStr ''abc''"
      "\<lparr>zipballs = [\<lparr>z_md5 = PyStr ''abc'', z_views = 3, z_tags = Map.empty, z_columns = Map.empty\<rparr>,
                   \<lparr>z_md5 = PyStr ''def'', z_views = 7, z_tags = Map.empty, z_columns = Map.empty\<rparr>],
       tags_table = [], taggings = [], executed = []\<rparr>"]
    add_view_rowcount [of "PyStr ''xyz''"
      "\<lparr>zipballs = [\<lparr>z_md5 = PyStr ''abc'', z_views = 3, z_tags = Map.empty, z_columns = Map.empty\<rparr>,
                   \<lparr>z_md5 = PyStr ''def'', z_views = 7, z_tags = Map.empty, z_columns = Map.empty\<rparr>],
       tags_table = [], taggings = [], executed = []\<rparr>"]
  by (simp add: matching_def)

text \<open>
  Claim C10: \<open>add_tags\<close> and \<open>remove_tags\<close> called with an empty tag collection return at
  once: the store, with the list of statements executed on it, and the content object,
  with its tag mapping, are as they were.
\<close>

theorem empty_tags_return_immediately:
  "add_tags db self [] = (Inr None, db, self) \<and> remove_tags db self [] = (Inr (), db, self)"
  by (simp add: add_tags_def remove_tags_def)

section \<open>The metadata normalizer: the specification tables\<close>

lemma standard_keys:
  "map fst STANDARD_FIELDS =
     [''url'', ''title'', ''images'', ''timestamp'', ''keep_formatting'', ''is_partner'',
      ''is_sponsored'', ''archive'', ''publisher'', ''license'', ''language'', ''multipage'',
      ''entry_point'', ''broadcast'', ''keywords'']"
  by (simp add: STANDARD_FIELDS_def META_SPECIFICATION_def field_def)

lemma REQUIRED_KEYS_eq: "REQUIRED_KEYS = [''url'', ''title'', ''timestamp'', ''license'']"
  by (simp add: REQUIRED_KEYS_def META_SPECIFICATION_def field_def)

lemma aliases_publisher: "get_aliases_for ''publisher'' = Inr [''partner'']"
  by (simp add: get_aliases_for_def standard_field_def STANDARD_FIELDS_def
      META_SPECIFICATION_def field_def)

lemma aliases_entry_point: "get_aliases_for ''entry_point'' = Inr [''index'']"
  by (simp add: get_aliases_for_def standard_field_def STANDARD_FIELDS_def
      META_SPECIFICATION_def field_def)

lemma aliases_none:
  "get_aliases_for ''url'' = Inr []" "get_aliases_for ''title'' = Inr []"
  "get_aliases_for ''images'' = Inr []" "get_aliases_for ''timestamp'' = Inr []"
  "get_aliases_for ''keep_formatting'' = Inr []" "get_aliases_for ''is_partner'' = Inr []"
  "get_aliases_for ''is_sponsored'' = Inr []" "get_aliases_for ''archive'' = Inr []"
  "get_aliases_for ''license'' = Inr []" "get_aliases_for ''language'' = Inr []"
  "get_aliases_for ''multipage'' = Inr []" "get_aliases_for ''broadcast'' = Inr []"
  "get_aliases_for ''keywords'' = Inr []"
  by (simp_all add: get_aliases_for_def standard_field_def STANDARD_FIELDS_def
      META_SPECIFICATION_def field_def)

lemma alias_entries:
  "(k, v) \<in> set STANDARD_FIELDS \<Longrightarrow> a \<in> set (aliases v) \<Longrightarrow>
   (k = ''publisher'' \<and> a = ''partner'') \<or> (k = ''entry_point'' \<and> a = ''index'')"
  by (simp add: STANDARD_FIELDS_def META_SPECIFICATION_def field_def) (elim disjE conjE; simp)

lemma get_aliases_for_cases:
  assumes "get_aliases_for k = Inr as" and "a \<in> set as"
  shows "(k = ''publisher'' \<and> a = ''partner'') \<or> (k = ''entry_point'' \<and> a = ''index'')"
proof -
  from assms(1) obtain v where v: "map_of STANDARD_FIELDS k = Some v" "as = aliases v"
    by (auto simp: get_aliases_for_def standard_field_def split: option.splits)
  from v(1) have "(k, v) \<in> set STANDARD_FIELDS" by (rule map_of_SomeD)
  with assms(2) v(2) show ?thesis by (simp add: alias_entries)
qed

section \<open>Alias replacement\<close>

lemma replace_aliases_loop_plain:
  "get_aliases_for k = Inr [] \<Longrightarrow> replace_aliases_loop (k # ks) m = replace_aliases_loop ks m"
  by simp

lemma replace_aliases_loop_publisher:
  "replace_aliases_loop (''publisher'' # ks) m =
     replace_aliases_loop ks
       (if m ''publisher'' = None then pop_aliases ''publisher'' [''partner''] m else m)"
  by (simp add: aliases_publisher)

lemma replace_aliases_loop_entry_point:
  "replace_aliases_loop (''entry_point'' # ks) m =
     replace_aliases_loop ks
       (if m ''entry_point'' = None then pop_aliases ''entry_point'' [''index''] m else m)"
  by (simp add: aliases_entry_point)

lemma replace_aliases_closed:
  "replace_aliases m =
     Inr (let m1 = (if m ''publisher'' = None then pop_aliases ''publisher'' [''partner''] m else m)
          in if m1 ''entry_point'' = None then pop_aliases ''entry_point'' [''index''] m1 else m1)"
  unfolding replace_aliases_def standard_keys
  by (simp add: replace_aliases_loop_plain aliases_none replace_aliases_loop_publisher
      replace_aliases_loop_entry_point Let_def
      del: replace_aliases_loop.simps(2) pop_aliases.simps)

lemma replace_aliases_total: "\<exists>m'. replace_aliases m = Inr m'"
  by (rule exI, rule replace_aliases_closed)

lemma replace_aliases_result:
  assumes "replace_aliases m = Inr m'"
  shows "m' =
     (let m1 = (if m ''publisher'' = None then pop_aliases ''publisher'' [''partner''] m else m)
      in if m1 ''entry_point'' = None then pop_aliases ''entry_point'' [''index''] m1 else m1)"
  using assms by (simp add: replace_aliases_closed)

lemma replace_aliases_publisher:
  assumes "replace_aliases m = Inr m'"
  shows "m' ''publisher'' = (if m ''publisher'' = None then m ''partner'' else m ''publisher'')"
  unfolding replace_aliases_result[OF assms]
  by (cases "m ''publisher''"; cases "m ''partner''"; cases "m ''entry_point''";
      cases "m ''index''"; simp add: Let_def)

lemma replace_aliases_partner:
  assumes "replace_aliases m = Inr m'"
  shows "m' ''partner'' = (if m ''publisher'' = None then None else m ''partner'')"
  unfolding replace_aliases_result[OF assms]
  by (cases "m ''publisher''"; cases "m ''partner''"; cases "m ''entry_point''";
      cases "m ''index''"; simp add: Let_def)

lemma replace_aliases_entry_point:
  assumes "replace_aliases m = Inr m'"
  shows "m' ''entry_point'' = (if m ''entry_point'' = None then m ''index'' else m ''entry_point'')"
  unfolding replace_aliases_result[OF assms]
  by (cases "m ''publisher''"; cases "m ''partner''"; cases "m ''entry_point''";
      cases "m ''index''"; simp add: Let_def)

lemma replace_aliases_index:
  assumes "replace_aliases m = Inr m'"
  shows "m' ''index'' = (if m ''entry_point'' = None then None else m ''index'')"
  unfolding replace_aliases_result[OF assms]
  by (cases "m ''publisher''"; cases "m ''partner''"; cases "m ''entry_point''";
      cases "m ''index''"; simp add: Let_def)

lemma replace_aliases_others:
  assumes "replace_aliases m = Inr m'"
    and "j \<noteq> ''publisher''" "j \<noteq> ''partner''" "j \<noteq> ''entry_point''" "j \<noteq> ''index''"
  shows "m' j = m j"
  unfolding replace_aliases_result[OF assms(1)] using assms(2-5)
  by (cases "m ''publisher''"; cases "m ''partner''"; cases "m ''entry_point''";
      cases "m ''index''"; simp add: Let_def)

text \<open>
  Claim C4: for each standard key and each alias that the specification gives it
  ('partner' for 'publisher', 'index' for 'entry_point'), \<open>replace_aliases\<close> moves the
  alias to the key exactly when the key is absent: the key gets the value of the alias
  and the alias is removed. A dict that has the key keeps its value, and the alias with
  it. Every key that is neither of these is left as it was.
\<close>

theorem replace_aliases_canonical:
  assumes "get_aliases_for k = Inr as" and "a \<in> set as"
  shows "\<exists>m'. replace_aliases m = Inr m' \<and>
           (m k = None \<longrightarrow> m' k = m a \<and> m' a = None) \<and>
           (m k \<noteq> None \<longrightarrow> m' k = m k \<and> m' a = m a) \<and>
           (\<forall>j. j \<notin> {''publisher'', ''partner'', ''entry_point'', ''index''} \<longrightarrow> m' j = m j)"
proof -
  obtain m' where m': "replace_aliases m = Inr m'"
    using replace_aliases_total by (rule exE)
  have others: "\<forall>j. j \<notin> {''publisher'', ''partner'', ''entry_point'', ''index''} \<longrightarrow> m' j = m j"
  proof (intro allI impI)
    fix j :: string
    assume "j \<notin> {''publisher'', ''partner'', ''entry_point'', ''index''}"
    then have "j \<noteq> ''publisher''" "j \<noteq> ''partner''" "j \<noteq> ''entry_point''" "j \<noteq> ''index''"
      by simp_all
    then show "m' j = m j" by (rule replace_aliases_others[OF m'])
  qed
  from get_aliases_for_cases[OF assms]
  have main: "(m k = None \<longrightarrow> m' k = m a \<and> m' a = None) \<and>
             (m k \<noteq> None \<longrightarrow> m' k = m k \<and> m' a = m a)"
  proof (elim disjE conjE)
    assume "k = ''publisher''" "a = ''partner''"
    then show ?thesis
      by (simp add: replace_aliases_publisher[OF m'] replace_aliases_partner[OF m'])
  next
    assume "k = ''entry_point''" "a = ''index''"
    then show ?thesis
      by (simp add: replace_aliases_entry_point[OF m'] replace_aliases_index[OF m'])
  qed
  show ?thesis
  proof (rule exI[of _ m'], intro conjI)
    show "replace_aliases m = Inr m'" by (rule m')
    show "m k = None \<longrightarrow> m' k = m a \<and> m' a = None" using main by (rule conjunct1)
    show "m k \<noteq> None \<longrightarrow> m' k = m k \<and> m' a = m a" using main by (rule conjunct2)
    show "\<forall>j. j \<notin> {''publisher'', ''partner'', ''entry_point'', ''index''} \<longrightarrow> m' j = m j"
      by (rule others)
  qed
qed

theorem replace_aliases_canonical_witness:
  "\<exists>m'. replace_aliases
          [''url'' \<mapsto> PyStr ''test'', ''title'' \<mapsto> PyStr ''again'', ''is_partner'' \<mapsto> PyBool True,
           ''partner'' \<mapsto> PyStr ''Partner'', ''index'' \<mapsto> PyStr ''some.html''] = Inr m' \<and>
        m' ''publisher'' = Some (PyStr ''Partner'') \<and> m' ''partner'' = None \<and>
        m' ''url'' = Some (PyStr ''test'')"
proof -
  have a: "''partner'' \<in> set [''partner'']" by simp
  from replace_aliases_canonical[OF aliases_publisher a]
  obtain m' where m':
    "replace_aliases
          [''url'' \<mapsto> PyStr ''test'', ''title'' \<mapsto> PyStr ''again'', ''is_partner'' \<mapsto> PyBool True,
           ''partner'' \<mapsto> PyStr ''Partner'', ''index'' \<mapsto> PyStr ''some.html''] = Inr m' \<and>
     ([''url'' \<mapsto> PyStr ''test'', ''title'' \<mapsto> PyStr ''again'', ''is_partner'' \<mapsto> PyBool True,
           ''partner'' \<mapsto> PyStr ''Partner'', ''index'' \<mapsto> PyStr ''some.html''] ''publisher'' = None \<longrightarrow>
        m' ''publisher'' =
          [''url'' \<mapsto> PyStr ''test'', ''title'' \<mapsto> PyStr ''again'', ''is_partner'' \<mapsto> PyBool True,
           ''partner'' \<mapsto> PyStr ''Partner'', ''index'' \<mapsto> PyStr ''some.html''] ''partner'' \<and>
        m' ''partner'' = None) \<and>
     ([''url'' \<mapsto> PyStr ''test'', ''title'' \<mapsto> PyStr ''again'', ''is_partner'' \<mapsto> PyBool True,
           ''partner'' \<mapsto> PyStr ''Partner'', ''index'' \<mapsto> PyStr ''some.html''] ''publisher'' \<noteq> None \<longrightarrow>
        m' ''publisher'' =
          [''url'' \<mapsto> PyStr ''test'', ''title'' \<mapsto> PyStr ''again'', ''is_partner'' \<mapsto> PyBool True,
           ''partner'' \<mapsto> PyStr ''Partner'', ''index'' \<mapsto> PyStr ''some.html''] ''publisher'' \<and>
        m' ''partner'' =
          [''url'' \<mapsto> PyStr ''test'', ''title'' \<mapsto> PyStr ''again'', ''is_partner'' \<mapsto> PyBool True,
           ''partner'' \<mapsto> PyStr ''Partner'', ''index'' \<mapsto> PyStr ''some.html''] ''partner'') \<and>
     (\<forall>j. j \<notin> {''publisher'', ''partner'', ''entry_point'', ''index''} \<longrightarrow>
        m' j = [''url'' \<mapsto> PyStr ''test'', ''title'' \<mapsto> PyStr ''again'', ''is_partner'' \<mapsto> PyBool True,
           ''partner'' \<mapsto> PyStr ''Partner'', ''index'' \<mapsto> PyStr ''some.html''] j)"
    by (rule exE)
  from m' have "m' ''publisher'' = Some (PyStr ''Partner'')" "m' ''partner'' = None" by simp_all
  moreover from m' have "m' ''url'' = Some (PyStr ''test'')" by simp
  moreover from m' have "replace_aliases
          [''url'' \<mapsto> PyStr ''test'', ''title'' \<mapsto> PyStr ''again'', ''is_partner'' \<mapsto> PyBool True,
           ''partner'' \<mapsto> PyStr ''Partner'', ''index'' \<mapsto> PyStr ''some.html''] = Inr m'"
    by (rule conjunct1)
  ultimately show ?thesis by (intro exI[of _ m'] conjI)
qed

section \<open>Mandatory keys\<close>

lemma is_required_true:
  "is_required ''url'' = Inr True" "is_required ''title'' = Inr True"
  "is_required ''timestamp'' = Inr True" "is_required ''license'' = Inr True"
  by (simp_all add: is_required_def standard_field_def STANDARD_FIELDS_def
      META_SPECIFICATION_def field_def)

lemma is_required_false:
  "is_required ''images'' = Inr False" "is_required ''keep_formatting'' = Inr False"
  "is_required ''is_partner'' = Inr False" "is_required ''is_sponsored'' = Inr False"
  "is_required ''archive'' = Inr False" "is_required ''publisher'' = Inr False"
  "is_required ''language'' = Inr False" "is_required ''multipage'' = Inr False"
  "is_required ''entry_point'' = Inr False" "is_required ''broadcast'' = Inr False"
  "is_required ''keywords'' = Inr False"
  by (simp_all add: is_required_def standard_field_def STANDARD_FIELDS_def
      META_SPECIFICATION_def field_def)

lemma check_required_mandatory:
  "is_required k = Inr True \<Longrightarrow>
   check_required (k # ks) m =
     (if m k = None then Inl (mandatory_key_missing k) else check_required ks m)"
  by simp

lemma check_required_optional:
  "is_required k = Inr False \<Longrightarrow> check_required (k # ks) m = check_required ks m"
  by simp

lemma check_required_closed:
  "check_required (map fst STANDARD_FIELDS) m =
     (if m ''url'' = None then Inl (mandatory_key_missing ''url'')
      else if m ''title'' = None then Inl (mandatory_key_missing ''title'')
      else if m ''timestamp'' = None then Inl (mandatory_key_missing ''timestamp'')
      else if m ''license'' = None then Inl (mandatory_key_missing ''license'')
      else Inr ())"
  unfolding standard_keys
  by (simp add: check_required_mandatory check_required_optional is_required_true
      is_required_false del: check_required.simps(2))

lemma issubclass_Exception: "issubclass c Exception"
  by (cases c) (simp_all add: issubclass_def)

lemma caught_by_Exception: "caught_by e [Exception]"
  by (simp add: caught_by_def issubclass_Exception)

text \<open>What \<open>convert_json\<close> does once the text is decoded and parsed.\<close>

lemma convert_json_parsed:
  assumes "decode raw = Inr decoded" and "loads decoded = Inr loaded"
    and "replace_aliases loaded = Inr m"
  shows "convert_json decode loads parse raw =
     (case check_required (map fst STANDARD_FIELDS) m of
        Inl e \<Rightarrow> Inl e
      | Inr u \<Rightarrow>
          (case add_missing_keys parse m of
             Inl exc \<Rightarrow> Inl (Exn DecodeError (''Failed to add default values: '' @ quoted (msg exc)))
           | Inr m' \<Rightarrow> Inr m'))"
  using assms by (simp add: convert_json_def caught_by_Exception split: sum.splits)

lemma convert_json_first_missing:
  assumes "decode raw = Inr decoded" and "loads decoded = Inr loaded"
    and "replace_aliases loaded = Inr m"
  shows "convert_json decode loads parse raw =
     (if m ''url'' = None then Inl (mandatory_key_missing ''url'')
      else if m ''title'' = None then Inl (mandatory_key_missing ''title'')
      else if m ''timestamp'' = None then Inl (mandatory_key_missing ''timestamp'')
      else if m ''license'' = None then Inl (mandatory_key_missing ''license'')
      else (case add_missing_keys parse m of
             Inl exc \<Rightarrow> Inl (Exn DecodeError (''Failed to add default values: '' @ quoted (msg exc)))
           | Inr m' \<Rightarrow> Inr m'))"
  unfolding convert_json_parsed[of decode raw decoded loads loaded m parse, OF assms]
    check_required_closed by simp

text \<open>
  The check of the mandatory keys, on an input for which \<^verbatim>\<open>str(meta.decode('utf8'))\<close>
  and \<^verbatim>\<open>json.loads\<close> return: when the object after alias replacement lacks a required
  field (url, title, timestamp, license), \<open>convert_json\<close> raises \<open>FormatError\<close> with the
  message "Mandatory key '...' missing" for a required key that is missing; that key is
  the given one when it is the only required key missing. When \<open>convert_json\<close> returns
  a dict, every required key is present after alias replacement.
\<close>

lemma convert_json_mandatory_keys:
  assumes "decode raw = Inr decoded" and "loads decoded = Inr loaded"
  shows "\<exists>m. replace_aliases loaded = Inr m \<and>
     ((\<exists>k\<in>set REQUIRED_KEYS. m k = None) \<longrightarrow>
        (\<exists>k\<in>set REQUIRED_KEYS. m k = None \<and>
           convert_json decode loads parse raw =
             Inl (Exn FormatError (''Mandatory key '' @ [CHR 0x27] @ k @ [CHR 0x27] @ '' missing'')))) \<and>
     (\<forall>k\<in>set REQUIRED_KEYS.
        m k = None \<and> (\<forall>j\<in>set REQUIRED_KEYS. j \<noteq> k \<longrightarrow> m j \<noteq> None) \<longrightarrow>
        convert_json decode loads parse raw =
          Inl (Exn FormatError (''Mandatory key '' @ [CHR 0x27] @ k @ [CHR 0x27] @ '' missing''))) \<and>
     (\<forall>r. convert_json decode loads parse raw = Inr r \<longrightarrow>
        (\<forall>k\<in>set REQUIRED_KEYS. m k \<noteq> None))"
proof -
  obtain m where m: "replace_aliases loaded = Inr m"
    using replace_aliases_total by (rule exE)
  note cj = convert_json_first_missing[of decode raw decoded loads loaded m parse, OF assms m]
  have first: "(\<exists>k\<in>set REQUIRED_KEYS. m k = None) \<longrightarrow>
        (\<exists>k\<in>set REQUIRED_KEYS. m k = None \<and>
           convert_json decode loads parse raw =
             Inl (Exn FormatError (''Mandatory key '' @ [CHR 0x27] @ k @ [CHR 0x27] @ '' missing'')))"
    unfolding cj REQUIRED_KEYS_eq by (simp add: mandatory_key_missing_def quoted_def)
  have only: "\<forall>k\<in>set REQUIRED_KEYS.
        m k = None \<and> (\<forall>j\<in>set REQUIRED_KEYS. j \<noteq> k \<longrightarrow> m j \<noteq> None) \<longrightarrow>
        convert_json decode loads parse raw =
          Inl (Exn FormatError (''Mandatory key '' @ [CHR 0x27] @ k @ [CHR 0x27] @ '' missing''))"
    unfolding cj REQUIRED_KEYS_eq by (simp add: mandatory_key_missing_def quoted_def)
  have success: "\<forall>r. convert_json decode loads parse raw = Inr r \<longrightarrow>
        (\<forall>k\<in>set REQUIRED_KEYS. m k \<noteq> None)"
    unfolding cj REQUIRED_KEYS_eq by (simp split: if_splits)
  show ?thesis
  proof (rule exI[of _ m], intro conjI)
    show "replace_aliases loaded = Inr m" by (rule m)
  qed (rule first only success)+
qed




lemma replace_aliases_no_alias:
  "m ''partner'' = None \<Longrightarrow> m ''index'' = None \<Longrightarrow> replace_aliases m = Inr m"
  by (simp add: replace_aliases_closed Let_def)

lemma convert_json_mandatory_keys_example:
  "convert_json Inr
     (\<lambda>s. Inr [''title'' \<mapsto> PyStr ''A title'', ''timestamp'' \<mapsto> PyStr ''2014-08-10 19:59:19 UTC'',
                ''license'' \<mapsto> PyStr ''GFDL''])
     (\<lambda>v. Inr (Date 2014 8 10)) ''{}'' =
   Inl (Exn FormatError (''Mandatory key '' @ [CHR 0x27] @ ''url'' @ [CHR 0x27] @ '' missing''))"
proof -
  let ?L = "[''title'' \<mapsto> PyStr ''A title'', ''timestamp'' \<mapsto> PyStr ''2014-08-10 19:59:19 UTC'',
             ''license'' \<mapsto> PyStr ''GFDL'']"
  let ?P = "\<lambda>v::pyval. Inr (Date 2014 8 10) :: exn + date"
  have L: "replace_aliases ?L = Inr ?L"
    by (rule replace_aliases_no_alias) simp_all
  from convert_json_mandatory_keys [of Inr "''{}''" "''{}''" "\<lambda>s. Inr ?L" ?L ?P, OF refl refl]
  obtain m where m: "replace_aliases ?L = Inr m"
    and only: "\<forall>k\<in>set REQUIRED_KEYS.
        m k = None \<and> (\<forall>j\<in>set REQUIRED_KEYS. j \<noteq> k \<longrightarrow> m j \<noteq> None) \<longrightarrow>
        convert_json Inr (\<lambda>s. Inr ?L) ?P ''{}'' =
          Inl (Exn FormatError (''Mandatory key '' @ [CHR 0x27] @ k @ [CHR 0x27] @ '' missing''))"
    by (elim exE conjE)
  from m L have eq: "m = ?L" by simp
  have "''url'' \<in> set REQUIRED_KEYS" by (simp add: REQUIRED_KEYS_eq)
  with only have imp: "m ''url'' = None \<and> (\<forall>j\<in>set REQUIRED_KEYS. j \<noteq> ''url'' \<longrightarrow> m j \<noteq> None) \<longrightarrow>
        convert_json Inr (\<lambda>s. Inr ?L) ?P ''{}'' =
          Inl (Exn FormatError (''Mandatory key '' @ [CHR 0x27] @ ''url'' @ [CHR 0x27] @ '' missing''))"
    by (rule bspec)
  have a: "m ''url'' = None" unfolding eq by simp
  have b: "\<forall>j\<in>set REQUIRED_KEYS. j \<noteq> ''url'' \<longrightarrow> m j \<noteq> None"
    unfolding eq by (simp add: REQUIRED_KEYS_eq)
  from mp[OF imp conjI[OF a b]] show ?thesis .
qed

section \<open>Default values\<close>

lemma distinct_standard_keys: "distinct (map fst STANDARD_FIELDS)"
  unfolding standard_keys by simp

lemma standard_field_entry:
  assumes "(k, v) \<in> set STANDARD_FIELDS"
  shows "standard_field k = Inr v"
proof -
  from distinct_standard_keys assms have "map_of STANDARD_FIELDS k = Some v"
    by (rule map_of_is_SomeI)
  then show ?thesis by (simp add: standard_field_def)
qed

lemma get_default_value_entry:
  assumes "(k, v) \<in> set STANDARD_FIELDS"
  shows "get_default_value parse k m =
     (case default v of
        Callable_default_broadcast \<Rightarrow> default_broadcast parse k m
      | Static d \<Rightarrow> Inr d)"
  by (simp add: get_default_value_def standard_field_entry[OF assms])

lemma get_default_value_timestamp:
  "m' ''timestamp'' = m ''timestamp'' \<Longrightarrow>
   get_default_value parse k m' = get_default_value parse k m"
  by (simp add: get_default_value_def default_broadcast_def
      split: sum.splits default_spec.splits)

lemma add_missing_keys_loop_dom:
  "add_missing_keys_loop parse ks m = Inr r \<Longrightarrow> dom r = dom m \<union> set ks"
proof (induction ks arbitrary: m)
  case Nil
  then show ?case by simp
next
  case (Cons a ks)
  show ?case
  proof (cases "m a = None")
    case True
    with Cons.prems obtain d where
      loop: "add_missing_keys_loop parse ks (m(a \<mapsto> d)) = Inr r"
      by (auto split: sum.splits)
    from Cons.IH[OF loop] show ?thesis by (auto simp: dom_def split: if_splits)
  next
    case False
    with Cons.prems have "add_missing_keys_loop parse ks m = Inr r" by simp
    from Cons.IH[OF this] False show ?thesis by auto
  qed
qed

lemma add_missing_keys_loop_keeps:
  "add_missing_keys_loop parse ks m = Inr r \<Longrightarrow> m k = Some v \<Longrightarrow> r k = Some v"
proof (induction ks arbitrary: m)
  case Nil
  then show ?case by simp
next
  case (Cons a ks)
  show ?case
  proof (cases "m a = None")
    case True
    with Cons.prems obtain d where
      loop: "add_missing_keys_loop parse ks (m(a \<mapsto> d)) = Inr r"
      by (auto split: sum.splits)
    from True Cons.prems(2) have "(m(a \<mapsto> d)) k = Some v" by auto
    from Cons.IH[OF loop this] show ?thesis .
  next
    case False
    with Cons.prems have "add_missing_keys_loop parse ks m = Inr r" by simp
    from Cons.IH[OF this Cons.prems(2)] show ?thesis .
  qed
qed

lemma add_missing_keys_loop_default:
  "add_missing_keys_loop parse ks m = Inr r \<Longrightarrow> m ''timestamp'' \<noteq> None \<Longrightarrow>
   k \<in> set ks \<Longrightarrow> m k = None \<Longrightarrow> \<exists>v. get_default_value parse k m = Inr v \<and> r k = Some v"
proof (induction ks arbitrary: m)
  case Nil
  then show ?case by simp
next
  case (Cons a ks)
  show ?case
  proof (cases "m a = None")
    case True
    with Cons.prems obtain v where v: "get_default_value parse a m = Inr v"
      and loop: "add_missing_keys_loop parse ks (m(a \<mapsto> v)) = Inr r"
      by (auto split: sum.splits)
    from True Cons.prems(2) have ts: "(m(a \<mapsto> v)) ''timestamp'' = m ''timestamp''" by auto
    show ?thesis
    proof (cases "k = a")
      case True
      have "(m(a \<mapsto> v)) a = Some v" by simp
      from add_missing_keys_loop_keeps[OF loop this] v True show ?thesis by simp
    next
      case False
      with Cons.prems have k: "k \<in> set ks" "(m(a \<mapsto> v)) k = None" by auto
      from ts Cons.prems(2) have "(m(a \<mapsto> v)) ''timestamp'' \<noteq> None" by simp
      from Cons.IH[OF loop this k] obtain w where
        "get_default_value parse k (m(a \<mapsto> v)) = Inr w" "r k = Some w" by blast
      with get_default_value_timestamp[of "m(a \<mapsto> v)" m parse k, OF ts] show ?thesis by simp
    qed
  next
    case False
    with Cons.prems have loop: "add_missing_keys_loop parse ks m = Inr r" by simp
    from False Cons.prems have "k \<in> set ks" by auto
    from Cons.IH[OF loop Cons.prems(2) this Cons.prems(4)] show ?thesis .
  qed
qed

lemma add_missing_keys_loop_fails:
  "add_missing_keys_loop parse ks m = Inl e \<Longrightarrow> m ''timestamp'' \<noteq> None \<Longrightarrow>
   \<exists>k\<in>set ks. m k = None \<and> get_default_value parse k m = Inl e"
proof (induction ks arbitrary: m)
  case Nil
  then show ?case by simp
next
  case (Cons a ks)
  show ?case
  proof (cases "m a = None")
    case True
    note absent = this
    show ?thesis
    proof (cases "get_default_value parse a m")
      case (Inl e')
      with absent Cons.prems show ?thesis by simp
    next
      case (Inr v)
      with absent Cons.prems have loop: "add_missing_keys_loop parse ks (m(a \<mapsto> v)) = Inl e" by simp
      from absent Cons.prems(2) have ts: "(m(a \<mapsto> v)) ''timestamp'' = m ''timestamp''" by auto
      with Cons.prems(2) have "(m(a \<mapsto> v)) ''timestamp'' \<noteq> None" by simp
      from Cons.IH[OF loop this] obtain k where
        k: "k \<in> set ks" "(m(a \<mapsto> v)) k = None" "get_default_value parse k (m(a \<mapsto> v)) = Inl e"
        by blast
      from k(2) have "m k = None" by (auto split: if_splits)
      with k(1,3) get_default_value_timestamp[of "m(a \<mapsto> v)" m parse k, OF ts] show ?thesis by auto
    qed
  next
    case False
    with Cons.prems have "add_missing_keys_loop parse ks m = Inl e" by simp
    from Cons.IH[OF this Cons.prems(2)] show ?thesis by auto
  qed
qed


section \<open>The result of \<open>convert_json\<close>\<close>

lemma convert_json_returns:
  assumes "decode raw = Inr decoded" and "loads decoded = Inr loaded"
    and "replace_aliases loaded = Inr m"
    and "convert_json decode loads parse raw = Inr r"
  shows "add_missing_keys_loop parse (map fst STANDARD_FIELDS) m = Inr r"
    and "m ''url'' \<noteq> None" and "m ''title'' \<noteq> None"
    and "m ''timestamp'' \<noteq> None" and "m ''license'' \<noteq> None"
  using assms(4)
  unfolding convert_json_first_missing[of decode raw decoded loads loaded m parse, OF assms(1-3)]
    add_missing_keys_def
  by (simp_all split: if_splits sum.splits)

lemma convert_json_complete:
  assumes "decode raw = Inr decoded" and "loads decoded = Inr loaded"
    and "replace_aliases loaded = Inr m"
    and "\<forall>k\<in>set REQUIRED_KEYS. m k \<noteq> None"
  shows "convert_json decode loads parse raw =
     (case add_missing_keys_loop parse (map fst STANDARD_FIELDS) m of
        Inl exc \<Rightarrow> Inl (Exn DecodeError (''Failed to add default values: '' @ quoted (msg exc)))
      | Inr m' \<Rightarrow> Inr m')"
proof -
  from assms(4) have "m ''url'' \<noteq> None" "m ''title'' \<noteq> None"
    "m ''timestamp'' \<noteq> None" "m ''license'' \<noteq> None"
    by (simp_all add: REQUIRED_KEYS_eq)
  then show ?thesis
    unfolding convert_json_first_missing[of decode raw decoded loads loaded m parse, OF assms(1-3)]
      add_missing_keys_def
    by (simp del: not_None_eq)
qed

lemma dom_clean_keys: "dom (clean_keys d) = dom d \<inter> set (map fst STANDARD_FIELDS)"
  by (auto simp: clean_keys_def dom_def split: if_splits)

lemma clean_keys_standard: "k \<in> set (map fst STANDARD_FIELDS) \<Longrightarrow> clean_keys d k = d k"
  by (simp add: clean_keys_def)

text \<open>
  Claim C2, as amended: \<open>convert_json\<close> strips nothing. When it returns a dict, the keys
  of the dict are the keys of the parsed object after alias replacement together with
  the standard (non-auto) keys of the specification, so a key that the specification
  does not have stays in the result. The keys are stripped by \<open>clean_keys\<close>, which
  \<open>convert_json\<close> does not call: the keys of \<open>clean_keys\<close> of the result are exactly the
  standard keys, and their values are unchanged.
\<close>

theorem convert_json_keys:
  assumes "decode raw = Inr decoded" and "loads decoded = Inr loaded"
    and "replace_aliases loaded = Inr m"
    and "convert_json decode loads parse raw = Inr r"
  shows "dom r = dom m \<union> set (map fst STANDARD_FIELDS) \<and>
         dom (clean_keys r) = set (map fst STANDARD_FIELDS) \<and>
         (\<forall>k\<in>set (map fst STANDARD_FIELDS). clean_keys r k = r k)"
proof -
  from convert_json_returns(1)[of decode raw decoded loads loaded m parse r, OF assms]
  have "dom r = dom m \<union> set (map fst STANDARD_FIELDS)"
    by (rule add_missing_keys_loop_dom)
  moreover from this have "dom (clean_keys r) = set (map fst STANDARD_FIELDS)"
    unfolding dom_clean_keys by blast
  moreover have "\<forall>k\<in>set (map fst STANDARD_FIELDS). clean_keys r k = r k"
    by (simp add: clean_keys_standard)
  ultimately show ?thesis by (intro conjI)
qed


lemma standard_field_of_key:
  assumes "k \<in> set (map fst STANDARD_FIELDS)"
  shows "\<exists>v. (k, v) \<in> set STANDARD_FIELDS"
  using assms by auto

lemma default_broadcast_succeeds:
  "m ''timestamp'' = Some ts \<Longrightarrow> parse ts = Inr dt \<Longrightarrow>
   default_broadcast parse k m = Inr (PyDate dt)"
  by (simp add: default_broadcast_def)

lemma get_default_value_succeeds:
  assumes "k \<in> set (map fst STANDARD_FIELDS)"
    and "m ''timestamp'' = Some ts" and "parse ts = Inr dt"
  shows "\<exists>v. get_default_value parse k m = Inr v"
proof -
  from standard_field_of_key[OF assms(1)] obtain v where v: "(k, v) \<in> set STANDARD_FIELDS" ..
  show ?thesis
  proof (cases "default v")
    case (Static d)
    then show ?thesis by (simp add: get_default_value_entry[OF v])
  next
    case Callable_default_broadcast
    then show ?thesis
      by (simp add: get_default_value_entry[OF v] default_broadcast_succeeds[of m ts parse dt k, OF assms(2,3)])
  qed
qed

lemma add_missing_keys_loop_succeeds:
  assumes "m ''timestamp'' = Some ts" and "parse ts = Inr dt"
  shows "\<exists>r. add_missing_keys_loop parse (map fst STANDARD_FIELDS) m = Inr r"
proof (cases "add_missing_keys_loop parse (map fst STANDARD_FIELDS) m")
  case (Inl e)
  from assms(1) have "m ''timestamp'' \<noteq> None" by simp
  from add_missing_keys_loop_fails[OF Inl this] obtain k where
    k: "k \<in> set (map fst STANDARD_FIELDS)" "get_default_value parse k m = Inl e" by blast
  from get_default_value_succeeds[of k m ts parse dt, OF k(1) assms] k(2) show ?thesis by simp
next
  case (Inr r)
  then show ?thesis by simp
qed

lemma convert_json_succeeds:
  assumes "decode raw = Inr decoded" and "loads decoded = Inr loaded"
    and "replace_aliases loaded = Inr m"
    and "\<forall>k\<in>set REQUIRED_KEYS. m k \<noteq> None"
    and "m ''timestamp'' = Some ts" and "parse ts = Inr dt"
  shows "\<exists>r. convert_json decode loads parse raw = Inr r \<and>
              add_missing_keys_loop parse (map fst STANDARD_FIELDS) m = Inr r"
proof -
  from add_missing_keys_loop_succeeds[of m ts parse dt, OF assms(5,6)] obtain r where
    r: "add_missing_keys_loop parse (map fst STANDARD_FIELDS) m = Inr r" ..
  have "convert_json decode loads parse raw = Inr r"
    unfolding convert_json_complete[of decode raw decoded loads loaded m parse, OF assms(1-4)] r
    by simp
  with r show ?thesis by (intro exI conjI)
qed

text \<open>
  Claim C2 as stated fails: a key that the specification does not have ('foo') is still
  in the dict that \<open>convert_json\<close> returns.
\<close>

theorem convert_json_keeps_unknown_key:
  "\<exists>r. convert_json Inr
          (\<lambda>s. Inr [''url'' \<mapsto> PyStr ''http://example.com/'', ''title'' \<mapsto> PyStr ''A title'',
                     ''timestamp'' \<mapsto> PyStr ''2014-08-10 19:59:19 UTC'',
                     ''license'' \<mapsto> PyStr ''GFDL'', ''foo'' \<mapsto> PyStr ''bar''])
          (\<lambda>v. Inr (Date 2014 8 10)) ''{}'' = Inr r \<and>
        r ''foo'' = Some (PyStr ''bar'') \<and>
        ''foo'' \<notin> set (map fst META_SPECIFICATION)"
proof -
  let ?L = "[''url'' \<mapsto> PyStr ''http://example.com/'', ''title'' \<mapsto> PyStr ''A title'',
             ''timestamp'' \<mapsto> PyStr ''2014-08-10 19:59:19 UTC'',
             ''license'' \<mapsto> PyStr ''GFDL'', ''foo'' \<mapsto> PyStr ''bar'']"
  let ?P = "\<lambda>v::pyval. Inr (Date 2014 8 10) :: exn + date"
  have L: "replace_aliases ?L = Inr ?L"
    by (rule replace_aliases_no_alias) simp_all
  have req: "\<forall>k\<in>set REQUIRED_KEYS. ?L k \<noteq> None"
    by (simp add: REQUIRED_KEYS_eq)
  have ts: "?L ''timestamp'' = Some (PyStr ''2014-08-10 19:59:19 UTC'')" by simp
  from convert_json_succeeds[of Inr "''{}''" "''{}''" "\<lambda>s. Inr ?L" ?L ?L _ ?P, OF refl refl L req ts refl]
  obtain r where r: "convert_json Inr (\<lambda>s. Inr ?L) ?P ''{}'' = Inr r"
    and loop: "add_missing_keys_loop ?P (map fst STANDARD_FIELDS) ?L = Inr r"
    by (elim exE conjE)
  have "?L ''foo'' = Some (PyStr ''bar'')" by simp
  with loop have "r ''foo'' = Some (PyStr ''bar'')" by (rule add_missing_keys_loop_keeps)
  moreover have "''foo'' \<notin> set (map fst META_SPECIFICATION)"
    by (simp add: META_SPECIFICATION_def)
  ultimately show ?thesis using r by (intro exI conjI)
qed

theorem convert_json_keys_witness:
  "\<exists>r. convert_json Inr
          (\<lambda>s. Inr [''url'' \<mapsto> PyStr ''http://example.com/'', ''title'' \<mapsto> PyStr ''A title'',
                     ''timestamp'' \<mapsto> PyStr ''2014-08-10 19:59:19 UTC'',
                     ''license'' \<mapsto> PyStr ''GFDL'', ''foo'' \<mapsto> PyStr ''bar''])
          (\<lambda>v. Inr (Date 2014 8 10)) ''{}'' = Inr r \<and>
        ''foo'' \<in> dom r \<and> ''foo'' \<notin> dom (clean_keys r) \<and> ''images'' \<in> dom (clean_keys r)"
proof -
  let ?L = "[''url'' \<mapsto> PyStr ''http://example.com/'', ''title'' \<mapsto> PyStr ''A title'',
             ''timestamp'' \<mapsto> PyStr ''2014-08-10 19:59:19 UTC'',
             ''license'' \<mapsto> PyStr ''GFDL'', ''foo'' \<mapsto> PyStr ''bar'']"
  let ?P = "\<lambda>v::pyval. Inr (Date 2014 8 10) :: exn + date"
  have L: "replace_aliases ?L = Inr ?L"
    by (rule replace_aliases_no_alias) simp_all
  have req: "\<forall>k\<in>set REQUIRED_KEYS. ?L k \<noteq> None"
    by (simp add: REQUIRED_KEYS_eq)
  have ts: "?L ''timestamp'' = Some (PyStr ''2014-08-10 19:59:19 UTC'')" by simp
  from convert_json_succeeds[of Inr "''{}''" "''{}''" "\<lambda>s. Inr ?L" ?L ?L _ ?P, OF refl refl L req ts refl]
  obtain r where r: "convert_json Inr (\<lambda>s. Inr ?L) ?P ''{}'' = Inr r"
    by (elim exE conjE)
  note inst = convert_json_keys[of Inr "''{}''" "''{}''" "\<lambda>s. Inr ?L" ?L ?L ?P r, OF refl refl L r]
  from inst have keys: "dom r = dom ?L \<union> set (map fst STANDARD_FIELDS)"
    by (rule conjunct1)
  from inst[THEN conjunct2] have clean: "dom (clean_keys r) = set (map fst STANDARD_FIELDS)"
    by (rule conjunct1)
  have "?L ''foo'' = Some (PyStr ''bar'')" by simp
  then have "''foo'' \<in> dom ?L" by (rule domI)
  then have "''foo'' \<in> dom r" unfolding keys by (rule UnI1)
  moreover have "''foo'' \<notin> dom (clean_keys r)" unfolding clean standard_keys by simp
  moreover have "''images'' \<in> dom (clean_keys r)" unfolding clean standard_keys by simp
  ultimately show ?thesis using r by (intro exI conjI)
qed

section \<open>Decoding the input\<close>

lemma UnicodeEncodeError_not_caught: "\<not> caught_by (Exn UnicodeEncodeError s) [UnicodeDecodeError]"
  by (simp add: caught_by_def issubclass_def)

lemma convert_json_unicode_encode_error:
  assumes "utf8 raw = Inr u" and "\<not> list_all (\<lambda>c. c < 128) u"
  shows "convert_json (str_decode utf8 error_text) loads parse raw =
           Inl (Exn UnicodeEncodeError (error_text u))"
  using assms
  by (simp add: convert_json_def str_decode_def py_str_def UnicodeEncodeError_not_caught)

text \<open>
  Claim C1 says that \<open>convert_json\<close>, on a valid UTF-8 JSON object that lacks a required
  field, raises \<open>FormatError\<close> naming the key. The code does so only when the text is
  ASCII. The bytes here are the valid UTF-8 text of the object with the one field
  "title" whose value is the letter e with an acute accent (code point 233, bytes C3 A9);
  the object lacks 'url'. \<^verbatim>\<open>str\<close> of the decoded text raises \<open>UnicodeEncodeError\<close>, which
  \<^verbatim>\<open>except UnicodeDecodeError\<close> does not catch, so that error leaves \<open>convert_json\<close>
  before the JSON is parsed, whatever \<open>json.loads\<close> and the date parser would do.
\<close>

theorem convert_json_non_ascii_input:
  "convert_json
     (str_decode
        (\<lambda>b. Inr [123, 34, 116, 105, 116, 108, 101, 34, 58, 32, 34, 233, 34, 125])
        error_text)
     loads parse
     ([CHR 0x7B, CHR 0x22] @ ''title'' @
      [CHR 0x22, CHR 0x3A, CHR 0x20, CHR 0x22, CHR 0xC3, CHR 0xA9, CHR 0x22, CHR 0x7D]) =
   Inl (Exn UnicodeEncodeError
          (error_text [123, 34, 116, 105, 116, 108, 101, 34, 58, 32, 34, 233, 34, 125]))"
  by (rule convert_json_unicode_encode_error) simp_all


lemma str_decode_ascii:
  "utf8 raw = Inr u \<Longrightarrow> list_all (\<lambda>c. c < 128) u \<Longrightarrow>
   str_decode utf8 error_text raw = Inr (map char_of u)"
  by (simp add: str_decode_def py_str_def)

section \<open>Defaults of the optional fields\<close>

lemma default_broadcast_result:
  assumes "default_broadcast parse k m = Inr w"
  shows "\<exists>ts dt. m ''timestamp'' = Some ts \<and> parse ts = Inr dt \<and> w = PyDate dt"
  using assms by (auto simp: default_broadcast_def split: option.splits sum.splits)

lemma convert_json_fills_default:
  assumes "decode raw = Inr decoded" and "loads decoded = Inr loaded"
    and "replace_aliases loaded = Inr m"
    and "convert_json decode loads parse raw = Inr r"
    and "(k, v) \<in> set STANDARD_FIELDS" and "m k = None"
  shows "case default v of
           Static d \<Rightarrow> r k = Some d
         | Callable_default_broadcast \<Rightarrow>
             (\<exists>ts dt. m ''timestamp'' = Some ts \<and> parse ts = Inr dt \<and> r k = Some (PyDate dt))"
proof -
  note ret = convert_json_returns[of decode raw decoded loads loaded m parse r, OF assms(1-4)]
  from assms(5) have "fst (k, v) \<in> fst ` set STANDARD_FIELDS" by (rule imageI)
  then have k: "k \<in> set (map fst STANDARD_FIELDS)" by simp
  from add_missing_keys_loop_default[OF ret(1) ret(4) k assms(6)] obtain w where
    w: "get_default_value parse k m = Inr w" "r k = Some w" by blast
  show ?thesis
  proof (cases "default v")
    case (Static d)
    with w show ?thesis by (simp add: get_default_value_entry[OF assms(5)])
  next
    case Callable_default_broadcast
    with w(1) have "default_broadcast parse k m = Inr w"
      by (simp add: get_default_value_entry[OF assms(5)])
    from default_broadcast_result[OF this] w(2) Callable_default_broadcast
    show ?thesis by auto
  qed
qed

lemma convert_json_default_fails:
  assumes "decode raw = Inr decoded" and "loads decoded = Inr loaded"
    and "replace_aliases loaded = Inr m"
    and "\<forall>k\<in>set REQUIRED_KEYS. m k \<noteq> None"
    and "k \<in> set (map fst STANDARD_FIELDS)" and "m k = None"
    and "get_default_value parse k m = Inl e"
  shows "\<exists>e'. convert_json decode loads parse raw =
           Inl (Exn DecodeError (''Failed to add default values: '' @ [CHR 0x27] @ msg e' @ [CHR 0x27]))"
proof (cases "add_missing_keys_loop parse (map fst STANDARD_FIELDS) m")
  case (Inl e')
  then have "convert_json decode loads parse raw =
      Inl (Exn DecodeError (''Failed to add default values: '' @ [CHR 0x27] @ msg e' @ [CHR 0x27]))"
    unfolding convert_json_complete[of decode raw decoded loads loaded m parse, OF assms(1-4)]
    by (simp add: quoted_def)
  then show ?thesis by (rule exI[of _ e'])
next
  case (Inr r)
  from assms(4) have "m ''timestamp'' \<noteq> None" by (simp add: REQUIRED_KEYS_eq)
  from add_missing_keys_loop_default[OF Inr this assms(5,6)] assms(7)
  show ?thesis by simp
qed

lemma convert_json_defaults_succeed:
  assumes "decode raw = Inr decoded" and "loads decoded = Inr loaded"
    and "replace_aliases loaded = Inr m"
    and "\<forall>k\<in>set REQUIRED_KEYS. m k \<noteq> None"
    and "\<forall>k\<in>set (map fst STANDARD_FIELDS).
           m k = None \<longrightarrow> (\<exists>v. get_default_value parse k m = Inr v)"
  shows "\<exists>r. convert_json decode loads parse raw = Inr r"
proof (cases "add_missing_keys_loop parse (map fst STANDARD_FIELDS) m")
  case (Inl e)
  from assms(4) have "m ''timestamp'' \<noteq> None" by (simp add: REQUIRED_KEYS_eq)
  from add_missing_keys_loop_fails[OF Inl this] obtain k where
    "k \<in> set (map fst STANDARD_FIELDS)" "m k = None" "get_default_value parse k m = Inl e"
    by blast
  with assms(5) show ?thesis by auto
next
  case (Inr r)
  then have "convert_json decode loads parse raw = Inr r"
    unfolding convert_json_complete[of decode raw decoded loads loaded m parse, OF assms(1-4)]
    by simp
  then show ?thesis by simp
qed

text \<open>
  Claim C3, as amended: take an input that decodes and parses, and the dict after alias
  replacement, with all required keys present. When \<open>convert_json\<close> returns, every
  standard field that this dict lacks has its declared default in the result: the static
  value, or for the computed default of 'broadcast' the date parsed from the 'timestamp'
  value. When computing the default of a missing field raises, \<open>convert_json\<close> raises
  \<open>DecodeError\<close>; when no default of a missing field raises, it returns.
\<close>

theorem convert_json_defaults:
  assumes "decode raw = Inr decoded" and "loads decoded = Inr loaded"
    and "replace_aliases loaded = Inr m"
    and "\<forall>k\<in>set REQUIRED_KEYS. m k \<noteq> None"
  shows
    "(\<forall>r. convert_json decode loads parse raw = Inr r \<longrightarrow>
        (\<forall>(k, v)\<in>set STANDARD_FIELDS. m k = None \<longrightarrow>
           (case default v of
              Static d \<Rightarrow> r k = Some d
            | Callable_default_broadcast \<Rightarrow>
                (\<exists>ts dt. m ''timestamp'' = Some ts \<and> parse ts = Inr dt \<and>
                   r k = Some (PyDate dt))))) \<and>
     ((\<exists>k\<in>set (map fst STANDARD_FIELDS).
         m k = None \<and> (\<exists>e. get_default_value parse k m = Inl e)) \<longrightarrow>
        (\<exists>e'. convert_json decode loads parse raw =
           Inl (Exn DecodeError (''Failed to add default values: '' @ [CHR 0x27] @ msg e' @ [CHR 0x27])))) \<and>
     ((\<forall>k\<in>set (map fst STANDARD_FIELDS).
         m k = None \<longrightarrow> (\<exists>v. get_default_value parse k m = Inr v)) \<longrightarrow>
        (\<exists>r. convert_json decode loads parse raw = Inr r))"
proof (intro conjI allI impI)
  fix r assume r: "convert_json decode loads parse raw = Inr r"
  show "\<forall>(k, v)\<in>set STANDARD_FIELDS. m k = None \<longrightarrow>
           (case default v of
              Static d \<Rightarrow> r k = Some d
            | Callable_default_broadcast \<Rightarrow>
                (\<exists>ts dt. m ''timestamp'' = Some ts \<and> parse ts = Inr dt \<and>
                   r k = Some (PyDate dt)))"
  proof (intro ballI, clarify)
    fix k v assume "(k, v) \<in> set STANDARD_FIELDS" "m k = None"
    with convert_json_fills_default[of decode raw decoded loads loaded m parse r k v, OF assms(1-3) r]
    show "case default v of
              Static d \<Rightarrow> r k = Some d
            | Callable_default_broadcast \<Rightarrow>
                (\<exists>ts dt. m ''timestamp'' = Some ts \<and> parse ts = Inr dt \<and>
                   r k = Some (PyDate dt))"
      by simp
  qed
next
  assume "\<exists>k\<in>set (map fst STANDARD_FIELDS).
         m k = None \<and> (\<exists>e. get_default_value parse k m = Inl e)"
  then obtain k e where "k \<in> set (map fst STANDARD_FIELDS)" "m k = None"
    "get_default_value parse k m = Inl e" by blast
  with convert_json_default_fails[of decode raw decoded loads loaded m k parse e, OF assms]
  show "\<exists>e'. convert_json decode loads parse raw =
           Inl (Exn DecodeError (''Failed to add default values: '' @ [CHR 0x27] @ msg e' @ [CHR 0x27]))"
    by simp
next
  assume "\<forall>k\<in>set (map fst STANDARD_FIELDS).
         m k = None \<longrightarrow> (\<exists>v. get_default_value parse k m = Inr v)"
  with convert_json_defaults_succeed[of decode raw decoded loads loaded m parse, OF assms]
  show "\<exists>r. convert_json decode loads parse raw = Inr r" by simp
qed


text \<open>
  Claim C3 as stated fails: 'publisher' is an optional field that the input dict does not
  have and whose declared default is the empty string, yet \<open>convert_json\<close> returns the
  value of the alias 'partner' for it.
\<close>

theorem convert_json_alias_before_default:
  "[''url'' \<mapsto> PyStr ''http://example.com/'', ''title'' \<mapsto> PyStr ''A title'',
    ''timestamp'' \<mapsto> PyStr ''2014-08-10 19:59:19 UTC'', ''license'' \<mapsto> PyStr ''GFDL'',
    ''partner'' \<mapsto> PyStr ''Partner''] ''publisher'' = None \<and>
   get_default_value (\<lambda>v. Inr (Date 2014 8 10)) ''publisher''
     [''url'' \<mapsto> PyStr ''http://example.com/'', ''title'' \<mapsto> PyStr ''A title'',
      ''timestamp'' \<mapsto> PyStr ''2014-08-10 19:59:19 UTC'', ''license'' \<mapsto> PyStr ''GFDL'',
      ''partner'' \<mapsto> PyStr ''Partner''] = Inr (PyStr []) \<and>
   (\<exists>r. convert_json Inr
          (\<lambda>s. Inr [''url'' \<mapsto> PyStr ''http://example.com/'', ''title'' \<mapsto> PyStr ''A title'',
                     ''timestamp'' \<mapsto> PyStr ''2014-08-10 19:59:19 UTC'',
                     ''license'' \<mapsto> PyStr ''GFDL'', ''partner'' \<mapsto> PyStr ''Partner''])
          (\<lambda>v. Inr (Date 2014 8 10)) ''{}'' = Inr r \<and>
        r ''publisher'' = Some (PyStr ''Partner''))"
proof -
  let ?L = "[''url'' \<mapsto> PyStr ''http://example.com/'', ''title'' \<mapsto> PyStr ''A title'',
             ''timestamp'' \<mapsto> PyStr ''2014-08-10 19:59:19 UTC'', ''license'' \<mapsto> PyStr ''GFDL'',
             ''partner'' \<mapsto> PyStr ''Partner'']"
  let ?P = "\<lambda>v::pyval. Inr (Date 2014 8 10) :: exn + date"
  have absent: "?L ''publisher'' = None" by simp
  have dflt: "get_default_value ?P ''publisher'' ?L = Inr (PyStr [])"
    by (simp add: get_default_value_def standard_field_def STANDARD_FIELDS_def
        META_SPECIFICATION_def field_def)
  obtain m where m: "replace_aliases ?L = Inr m"
    using replace_aliases_total by (rule exE)
  have pub: "m ''publisher'' = Some (PyStr ''Partner'')"
    unfolding replace_aliases_publisher[OF m] by simp
  have "m ''url'' = ?L ''url''" by (rule replace_aliases_others[OF m]) simp_all
  then have url: "m ''url'' \<noteq> None" by simp
  have "m ''title'' = ?L ''title''" by (rule replace_aliases_others[OF m]) simp_all
  then have title: "m ''title'' \<noteq> None" by simp
  have "m ''timestamp'' = ?L ''timestamp''" by (rule replace_aliases_others[OF m]) simp_all
  then have ts: "m ''timestamp'' = Some (PyStr ''2014-08-10 19:59:19 UTC'')" by simp
  have "m ''license'' = ?L ''license''" by (rule replace_aliases_others[OF m]) simp_all
  then have license: "m ''license'' \<noteq> None" by simp
  from url title ts license have req: "\<forall>k\<in>set REQUIRED_KEYS. m k \<noteq> None"
    by (simp add: REQUIRED_KEYS_eq)
  from convert_json_succeeds[of Inr "''{}''" "''{}''" "\<lambda>s. Inr ?L" ?L m _ ?P, OF refl refl m req ts refl]
  obtain r where r: "convert_json Inr (\<lambda>s. Inr ?L) ?P ''{}'' = Inr r"
    and loop: "add_missing_keys_loop ?P (map fst STANDARD_FIELDS) m = Inr r"
    by (elim exE conjE)
  from loop pub have "r ''publisher'' = Some (PyStr ''Partner'')"
    by (rule add_missing_keys_loop_keeps)
  with r have "\<exists>r. convert_json Inr (\<lambda>s. Inr ?L) ?P ''{}'' = Inr r \<and>
        r ''publisher'' = Some (PyStr ''Partner'')"
    by (intro exI conjI)
  with absent dflt show ?thesis by (intro conjI)
qed




theorem convert_json_defaults_witness:
  "(\<exists>r. convert_json Inr
          (\<lambda>s. Inr [''url'' \<mapsto> PyStr ''http://example.com/'', ''title'' \<mapsto> PyStr ''A title'',
                     ''timestamp'' \<mapsto> PyStr ''2014-08-10 19:59:19 UTC'',
                     ''license'' \<mapsto> PyStr ''GFDL''])
          (\<lambda>v. if v = PyStr ''2014-08-10 19:59:19 UTC'' then Inr (Date 2014 8 10)
                else Inl (Exn ValueError ''Unknown string format'')) ''{}'' = Inr r \<and>
        r ''images'' = Some (PyInt 0) \<and>
        r ''entry_point'' = Some (PyStr ''index.html'') \<and>
        r ''broadcast'' = Some (PyDate (Date 2014 8 10))) \<and>
   (\<exists>e. convert_json Inr
          (\<lambda>s. Inr [''url'' \<mapsto> PyStr ''http://example.com/'', ''title'' \<mapsto> PyStr ''A title'',
                     ''timestamp'' \<mapsto> PyStr ''soon'', ''license'' \<mapsto> PyStr ''GFDL''])
          (\<lambda>v. if v = PyStr ''2014-08-10 19:59:19 UTC'' then Inr (Date 2014 8 10)
                else Inl (Exn ValueError ''Unknown string format'')) ''{}'' =
        Inl (Exn DecodeError (''Failed to add default values: '' @ [CHR 0x27] @ msg e @ [CHR 0x27])))"
proof (rule conjI)
  let ?L = "[''url'' \<mapsto> PyStr ''http://example.com/'', ''title'' \<mapsto> PyStr ''A title'',
             ''timestamp'' \<mapsto> PyStr ''2014-08-10 19:59:19 UTC'', ''license'' \<mapsto> PyStr ''GFDL'']"
  let ?P = "\<lambda>v. if v = PyStr ''2014-08-10 19:59:19 UTC'' then Inr (Date 2014 8 10)
                else Inl (Exn ValueError ''Unknown string format'')"
  have L: "replace_aliases ?L = Inr ?L"
    by (rule replace_aliases_no_alias) simp_all
  have req: "\<forall>k\<in>set REQUIRED_KEYS. ?L k \<noteq> None"
    by (simp add: REQUIRED_KEYS_eq)
  note inst = convert_json_defaults[of Inr "''{}''" "''{}''" "\<lambda>s. Inr ?L" ?L ?L ?P, OF refl refl L req]
  have ts: "?L ''timestamp'' = Some (PyStr ''2014-08-10 19:59:19 UTC'')" by simp
  have p: "?P (PyStr ''2014-08-10 19:59:19 UTC'') = Inr (Date 2014 8 10)" by simp
  have "\<forall>k\<in>set (map fst STANDARD_FIELDS).
         ?L k = None \<longrightarrow> (\<exists>v. get_default_value ?P k ?L = Inr v)"
  proof (intro ballI impI)
    fix k assume "k \<in> set (map fst STANDARD_FIELDS)"
    then show "\<exists>v. get_default_value ?P k ?L = Inr v"
      by (rule get_default_value_succeeds[of k ?L _ ?P, OF _ ts p])
  qed
  with inst[THEN conjunct2, THEN conjunct2]
  have "\<exists>r. convert_json Inr (\<lambda>s. Inr ?L) ?P ''{}'' = Inr r"
    by (rule mp)
  then obtain r where r: "convert_json Inr (\<lambda>s. Inr ?L) ?P ''{}'' = Inr r" ..
  note fills = inst[THEN conjunct1, rule_format, OF r]
  have "(''images'', field\<lparr>default := Static (PyInt 0)\<rparr>) \<in> set STANDARD_FIELDS"
    by (simp add: STANDARD_FIELDS_def META_SPECIFICATION_def field_def)
  from fills[OF this] have images: "r ''images'' = Some (PyInt 0)"
    by (simp add: field_def)
  have "(''entry_point'', field\<lparr>default := Static (PyStr ''index.html''), aliases := [''index'']\<rparr>)
          \<in> set STANDARD_FIELDS"
    by (simp add: STANDARD_FIELDS_def META_SPECIFICATION_def field_def)
  from fills[OF this] have entry: "r ''entry_point'' = Some (PyStr ''index.html'')"
    by (simp add: field_def)
  have "(''broadcast'', field\<lparr>required := False, default := Callable_default_broadcast\<rparr>)
          \<in> set STANDARD_FIELDS"
    by (simp add: STANDARD_FIELDS_def META_SPECIFICATION_def field_def)
  from fills[OF this] have broadcast: "r ''broadcast'' = Some (PyDate (Date 2014 8 10))"
    by (simp add: field_def)
  from r images entry broadcast
  show "\<exists>r. convert_json Inr (\<lambda>s. Inr ?L) ?P ''{}'' = Inr r \<and>
        r ''images'' = Some (PyInt 0) \<and>
        r ''entry_point'' = Some (PyStr ''index.html'') \<and>
        r ''broadcast'' = Some (PyDate (Date 2014 8 10))"
    by (intro exI conjI)
next
  let ?L = "[''url'' \<mapsto> PyStr ''http://example.com/'', ''title'' \<mapsto> PyStr ''A title'',
             ''timestamp'' \<mapsto> PyStr ''soon'', ''license'' \<mapsto> PyStr ''GFDL'']"
  let ?P = "\<lambda>v. if v = PyStr ''2014-08-10 19:59:19 UTC'' then Inr (Date 2014 8 10)
                else Inl (Exn ValueError ''Unknown string format'')"
  have L: "replace_aliases ?L = Inr ?L"
    by (rule replace_aliases_no_alias) simp_all
  have req: "\<forall>k\<in>set REQUIRED_KEYS. ?L k \<noteq> None"
    by (simp add: REQUIRED_KEYS_eq)
  note inst = convert_json_defaults[of Inr "''{}''" "''{}''" "\<lambda>s. Inr ?L" ?L ?L ?P, OF refl refl L req]
  have k: "''broadcast'' \<in> set (map fst STANDARD_FIELDS)"
    unfolding standard_keys by simp
  have "get_default_value ?P ''broadcast'' ?L = Inl (Exn ValueError ''Unknown string format'')"
    by (simp add: get_default_value_def standard_field_def STANDARD_FIELDS_def
        META_SPECIFICATION_def field_def default_broadcast_def)
  then have bc: "?L ''broadcast'' = None \<and> (\<exists>e. get_default_value ?P ''broadcast'' ?L = Inl e)"
    by simp
  have "\<exists>k\<in>set (map fst STANDARD_FIELDS).
         ?L k = None \<and> (\<exists>e. get_default_value ?P k ?L = Inl e)"
  proof (rule bexI[of _ "''broadcast''"])
    show "?L ''broadcast'' = None \<and> (\<exists>e. get_default_value ?P ''broadcast'' ?L = Inl e)"
      by (rule bc)
    show "''broadcast'' \<in> set (map fst STANDARD_FIELDS)" by (rule k)
  qed
  with inst[THEN conjunct2, THEN conjunct1]
  show "\<exists>e. convert_json Inr (\<lambda>s. Inr ?L) ?P ''{}'' =
        Inl (Exn DecodeError (''Failed to add default values: '' @ [CHR 0x27] @ msg e @ [CHR 0x27]))"
    by (rule mp)
qed

section \<open>The cover image\<close>

lemma IOError_not_caught:
  "\<not> caught_by (Exn IOError s) [TypeError, OSError]"
  "\<not> caught_by (Exn IOError s) [AttributeError]"
  by (simp_all add: caught_by_def issubclass_def)

lemma BadZipfile_not_caught:
  "\<not> caught_by (Exn BadZipfile s) [TypeError, OSError]"
  "\<not> caught_by (Exn BadZipfile s) [AttributeError]"
  by (simp_all add: caught_by_def issubclass_def)

lemma OSError_caught:
  "caught_by (Exn OSError s) [TypeError, OSError]" "caught_by (Exn TypeError s) [TypeError, OSError]"
  by (simp_all add: caught_by_def issubclass_def)

text \<open>What the \<open>image\<close> attribute gives when the cover is not cached, no cover file is
  found, and opening the zip file raises.\<close>

lemma image_open_fails:
  assumes "image_cache self = None" and "meta self ''md5'' = Some h"
    and "glob rt (path_join (cover_dir self) (str_of rt h @ ''.*'')) = []"
    and "zip_path self = Some p" and "p \<noteq> []" and "open_zip rt p = Inl e"
  shows "image rt self =
     (if caught_by e [TypeError, OSError] then (Inr PyNone, self)
      else if caught_by e [AttributeError] then (getattr_meta self ''image'', self)
      else (Inl e, self))"
  using assms
  by (simp add: image_def image_getter_def get_cover_path_def getattr_meta_def
      extract_image_def)

lemma image_open_fails_OSError:
  assumes "image_cache self = None" and "meta self ''md5'' = Some h"
    and "glob rt (path_join (cover_dir self) (str_of rt h @ ''.*'')) = []"
    and "zip_path self = Some p" and "p \<noteq> []" and "open_zip rt p = Inl (Exn OSError s)"
  shows "image rt self = (Inr PyNone, self)"
  unfolding image_open_fails[of self h rt p "Exn OSError s", OF assms]
  by (simp add: OSError_caught)

lemma image_open_fails_IOError:
  assumes "image_cache self = None" and "meta self ''md5'' = Some h"
    and "glob rt (path_join (cover_dir self) (str_of rt h @ ''.*'')) = []"
    and "zip_path self = Some p" and "p \<noteq> []" and "open_zip rt p = Inl (Exn IOError s)"
  shows "image rt self = (Inl (Exn IOError s), self)"
  unfolding image_open_fails[of self h rt p "Exn IOError s", OF assms]
  by (simp add: IOError_not_caught)

text \<open>
  Claim C7 says that, for a \<open>Meta\<close> whose cover is not cached, a failure to extract an
  image from the bundle (the zip file missing, an I/O error while reading it) is not
  fatal: \<open>image\<close> gives \<^verbatim>\<open>None\<close>. The code catches \<^verbatim>\<open>TypeError\<close> and \<^verbatim>\<open>OSError\<close> only.
  In Python 2, \<^verbatim>\<open>open\<close> of a file that does not exist raises \<^verbatim>\<open>IOError\<close>, which is not
  an \<^verbatim>\<open>OSError\<close>: here the content has an md5, no cover is cached or found in the cover
  directory, \<open>zip_path\<close> names a file that does not exist, and the \<^verbatim>\<open>IOError\<close> leaves
  the attribute read.
\<close>

theorem image_missing_zip_raises:
  "image
     \<lparr>glob = (\<lambda>pattern. []),
      open_zip = (\<lambda>path. Inl (Exn IOError message)),
      write_file = write, str_of = str\<rparr>
     \<lparr>meta = [''md5'' \<mapsto> PyStr ''202ab62b551f6d7fc002f65652525544''],
      tags = Map.empty, image_cache = None, cover_dir = ''/srv/covers'',
      zip_path = Some ''/srv/zipballs/202ab62b551f6d7fc002f65652525544.zip''\<rparr> =
   (Inl (Exn IOError message),
    \<lparr>meta = [''md5'' \<mapsto> PyStr ''202ab62b551f6d7fc002f65652525544''],
     tags = Map.empty, image_cache = None, cover_dir = ''/srv/covers'',
     zip_path = Some ''/srv/zipballs/202ab62b551f6d7fc002f65652525544.zip''\<rparr>)"
  by (rule image_open_fails_IOError
        [where p = "''/srv/zipballs/202ab62b551f6d7fc002f65652525544.zip''"
           and h = "PyStr ''202ab62b551f6d7fc002f65652525544''"])
    simp_all

section \<open>Adding and removing tags\<close>

lemma insert_tag_keeps: "set rows \<subseteq> set (insert_tag name rows)"
  by (auto simp: insert_tag_def)

lemma insert_tag_has: "name \<in> snd ` set (insert_tag name rows)"
  by (auto simp: insert_tag_def)

lemma fold_insert_tag_keeps: "set rows \<subseteq> set (fold insert_tag names rows)"
proof (induction names arbitrary: rows)
  case Nil
  then show ?case by simp
next
  case (Cons a names)
  have "set rows \<subseteq> set (insert_tag a rows)" by (rule insert_tag_keeps)
  also have "\<dots> \<subseteq> set (fold insert_tag names (insert_tag a rows))" by (rule Cons.IH)
  finally show ?case by simp
qed

lemma fold_insert_tag_has:
  "name \<in> set names \<Longrightarrow> name \<in> snd ` set (fold insert_tag names rows)"
proof (induction names arbitrary: rows)
  case Nil
  then show ?case by simp
next
  case (Cons a names)
  show ?case
  proof (cases "name \<in> set names")
    case True
    then have "name \<in> snd ` set (fold insert_tag names (insert_tag a rows))" by (rule Cons.IH)
    then show ?thesis by simp
  next
    case False
    with Cons.prems have "name = a" by simp
    then have "name \<in> snd ` set (insert_tag a rows)" by (simp add: insert_tag_has)
    with fold_insert_tag_keeps[of "insert_tag a rows" names]
    have "name \<in> snd ` set (fold insert_tag names (insert_tag a rows))" by blast
    then show ?thesis by simp
  qed
qed

lemma dom_fold_tags:
  "dom (fold (\<lambda>(i, n) d. d(n \<mapsto> i)) rows d0) = dom d0 \<union> snd ` set rows"
  by (induction rows arbitrary: d0) (auto simp: case_prod_beta)

lemma dom_tags_dict: "dom (tags_dict rows) = snd ` set rows"
  by (simp add: tags_dict_def dom_fold_tags)

lemma names_of_selected_tags:
  "snd ` set (select_tags names (insert_tags names db)) = set names"
proof
  show "snd ` set (select_tags names (insert_tags names db)) \<subseteq> set names"
    by (auto simp: select_tags_def)
  show "set names \<subseteq> snd ` set (select_tags names (insert_tags names db))"
  proof
    fix n assume n: "n \<in> set names"
    then have "n \<in> snd ` set (fold insert_tag names (tags_table db))"
      by (rule fold_insert_tag_has)
    then obtain i where "(i, n) \<in> set (fold insert_tag names (tags_table db))" by auto
    with n have "(i, n) \<in> set (select_tags names (insert_tags names db))"
      by (simp add: select_tags_def insert_tags_def query_def)
    then show "n \<in> snd ` set (select_tags names (insert_tags names db))" by force
  qed
qed

lemma tag_ids_of_total:
  "set names \<subseteq> dom t \<Longrightarrow> \<exists>ids. tag_ids_of t names = Inr ids"
proof (induction names)
  case Nil
  then show ?case by simp
next
  case (Cons a names)
  then obtain i ids where "t a = Some i" "tag_ids_of t names = Inr ids" by auto
  then show ?case by simp
qed

text \<open>The tag mapping after \<open>add_tags\<close>: the mapping before, overridden on every name of
  the tag set.\<close>

lemma add_tags_mapping:
  assumes "names \<noteq> []"
  shows "tags (snd (snd (add_tags db self names))) =
           tags self ++ tags_dict (select_tags names (insert_tags names db))"
    and "meta (snd (snd (add_tags db self names))) = meta self"
  using assms by (simp_all add: add_tags_def Let_def split: sum.splits)

lemma add_tags_dom:
  assumes "names \<noteq> []"
  shows "set names \<subseteq> dom (tags (snd (snd (add_tags db self names))))"
  unfolding add_tags_mapping(1)[OF assms] dom_map_add dom_tags_dict names_of_selected_tags
  by simp

lemma add_tags_others:
  assumes "names \<noteq> []" and "n \<notin> set names"
  shows "tags (snd (snd (add_tags db self names))) n = tags self n"
proof -
  from assms(2) have "n \<notin> dom (tags_dict (select_tags names (insert_tags names db)))"
    unfolding dom_tags_dict names_of_selected_tags .
  then show ?thesis
    unfolding add_tags_mapping(1)[OF assms(1)] by (simp add: map_add_dom_app_simps)
qed

lemma remove_tags_mapping:
  assumes "names \<noteq> []" and "set names \<subseteq> dom (tags self1)"
  shows "tags (snd (snd (remove_tags db1 self1 names))) =
           (\<lambda>n. if n \<in> set names then None else tags self1 n)"
proof -
  from tag_ids_of_total[OF assms(2)] obtain ids where
    "tag_ids_of (tags self1) names = Inr ids" ..
  with assms(1) show ?thesis
    by (simp add: remove_tags_def Let_def split: sum.splits)
qed

text \<open>The tag mapping after \<open>add_tags\<close> and then \<open>remove_tags\<close> with the same tag set: the
  mapping before, without the names of the tag set.\<close>

lemma tags_after_add_remove:
  assumes "names \<noteq> []"
  shows "tags (snd (snd (remove_tags (fst (snd (add_tags db self names)))
                           (snd (snd (add_tags db self names))) names))) =
           (\<lambda>n. if n \<in> set names then None else tags self n)"
proof -
  have "tags (snd (snd (remove_tags (fst (snd (add_tags db self names)))
                           (snd (snd (add_tags db self names))) names))) =
        (\<lambda>n. if n \<in> set names then None else tags (snd (snd (add_tags db self names))) n)"
    using assms add_tags_dom[OF assms] by (rule remove_tags_mapping)
  also have "\<dots> = (\<lambda>n. if n \<in> set names then None else tags self n)"
  proof
    fix n
    show "(if n \<in> set names then None else tags (snd (snd (add_tags db self names))) n) =
          (if n \<in> set names then None else tags self n)"
      by (simp add: add_tags_others[OF assms])
  qed
  finally show ?thesis .
qed


lemma add_tags_succeeds:
  assumes "names \<noteq> []" and "meta self ''md5'' = Some h"
  shows "fst (add_tags db self names) = Inr (Some (select_tags names (insert_tags names db)))"
  using assms by (simp add: add_tags_def Let_def getattr_meta_def)

lemma remove_tags_succeeds:
  assumes "names \<noteq> []" and "set names \<subseteq> dom (tags self1)" and "meta self1 ''md5'' = Some h"
  shows "fst (remove_tags db1 self1 names) = Inr ()"
proof -
  from tag_ids_of_total[OF assms(2)] obtain ids where
    "tag_ids_of (tags self1) names = Inr ids" ..
  with assms(1,3) show ?thesis
    by (simp add: remove_tags_def Let_def getattr_meta_def)
qed

text \<open>
  Claim C6, as amended: for a content record with an md5 and a non-empty tag set,
  \<open>add_tags\<close> and then \<open>remove_tags\<close> with the same tag set both succeed and leave
  \<open>meta.tags\<close> as it was before \<open>add_tags\<close> without the names of the tag set. So the
  mapping is restored when none of the names was in it before.
\<close>

theorem add_tags_then_remove_tags:
  assumes "names \<noteq> []" and "meta self ''md5'' = Some h"
  shows "\<exists>rows db1 self1 db2 self2.
      add_tags db self names = (Inr (Some rows), db1, self1) \<and>
      remove_tags db1 self1 names = (Inr (), db2, self2) \<and>
      tags self2 = (\<lambda>n. if n \<in> set names then None else tags self n) \<and>
      (dom (tags self) \<inter> set names = {} \<longrightarrow> tags self2 = tags self)"
proof -
  let ?a = "add_tags db self names"
  let ?db1 = "fst (snd ?a)" and ?self1 = "snd (snd ?a)"
  let ?r = "remove_tags ?db1 ?self1 names"
  let ?rows = "select_tags names (insert_tags names db)"
  have a: "?a = (Inr (Some ?rows), ?db1, ?self1)"
    using add_tags_succeeds[OF assms, of db] by (simp add: prod_eq_iff)
  have md5: "meta ?self1 ''md5'' = Some h"
    using assms(2) by (simp add: add_tags_mapping(2)[OF assms(1)])
  have r: "?r = (Inr (), fst (snd ?r), snd (snd ?r))"
    using remove_tags_succeeds[OF assms(1) add_tags_dom[OF assms(1)] md5, of ?db1]
    by (simp add: prod_eq_iff)
  have t: "tags (snd (snd ?r)) = (\<lambda>n. if n \<in> set names then None else tags self n)"
    using assms(1) by (rule tags_after_add_remove)
  have d: "dom (tags self) \<inter> set names = {} \<longrightarrow> tags (snd (snd ?r)) = tags self"
  proof
    assume disj: "dom (tags self) \<inter> set names = {}"
    show "tags (snd (snd ?r)) = tags self"
      unfolding t
    proof
      fix n
      from disj show "(if n \<in> set names then None else tags self n) = tags self n"
        by (cases "tags self n") auto
    qed
  qed
  from a r t d show ?thesis by blast
qed


text \<open>
  Claim C6 as stated fails: the content already has the tag 'a' (tag id 1). \<open>add_tags\<close>
  with the tag set {'a'} leaves the mapping as it is, and \<open>remove_tags\<close> with the same
  tag set then removes 'a' from it, so the mapping before \<open>add_tags\<close> is not restored.
\<close>

theorem add_then_remove_existing_tag:
  "tags \<lparr>meta = [''md5'' \<mapsto> PyStr ''abc''], tags = [''a'' \<mapsto> 1], image_cache = None,
          cover_dir = ''covers'', zip_path = None\<rparr> ''a'' = Some 1 \<and>
   fst (add_tags
      \<lparr>zipballs = [\<lparr>z_md5 = PyStr ''abc'', z_views = 0, z_tags = [''a'' \<mapsto> 1],
                     z_columns = Map.empty\<rparr>],
       tags_table = [(1, ''a'')], taggings = [(1, PyStr ''abc'')], executed = []\<rparr>
      \<lparr>meta = [''md5'' \<mapsto> PyStr ''abc''], tags = [''a'' \<mapsto> 1], image_cache = None,
        cover_dir = ''covers'', zip_path = None\<rparr> [''a'']) = Inr (Some [(1, ''a'')]) \<and>
   tags (snd (snd (add_tags
      \<lparr>zipballs = [\<lparr>z_md5 = PyStr ''abc'', z_views = 0, z_tags = [''a'' \<mapsto> 1],
                     z_columns = Map.empty\<rparr>],
       tags_table = [(1, ''a'')], taggings = [(1, PyStr ''abc'')], executed = []\<rparr>
      \<lparr>meta = [''md5'' \<mapsto> PyStr ''abc''], tags = [''a'' \<mapsto> 1], image_cache = None,
        cover_dir = ''covers'', zip_path = None\<rparr> [''a'']))) ''a'' = Some 1 \<and>
   fst (remove_tags
      (fst (snd (add_tags
        \<lparr>zipballs = [\<lparr>z_md5 = PyStr ''abc'', z_views = 0, z_tags = [''a'' \<mapsto> 1],
                       z_columns = Map.empty\<rparr>],
         tags_table = [(1, ''a'')], taggings = [(1, PyStr ''abc'')], executed = []\<rparr>
        \<lparr>meta = [''md5'' \<mapsto> PyStr ''abc''], tags = [''a'' \<mapsto> 1], image_cache = None,
          cover_dir = ''covers'', zip_path = None\<rparr> [''a''])))
      (snd (snd (add_tags
        \<lparr>zipballs = [\<lparr>z_md5 = PyStr ''abc'', z_views = 0, z_tags = [''a'' \<mapsto> 1],
                       z_columns = Map.empty\<rparr>],
         tags_table = [(1, ''a'')], taggings = [(1, PyStr ''abc'')], executed = []\<rparr>
        \<lparr>meta = [''md5'' \<mapsto> PyStr ''abc''], tags = [''a'' \<mapsto> 1], image_cache = None,
          cover_dir = ''covers'', zip_path = None\<rparr> [''a''])))
      [''a'']) = Inr () \<and>
   tags (snd (snd (remove_tags
      (fst (snd (add_tags
        \<lparr>zipballs = [\<lparr>z_md5 = PyStr ''abc'', z_views = 0, z_tags = [''a'' \<mapsto> 1],
                       z_columns = Map.empty\<rparr>],
         tags_table = [(1, ''a'')], taggings = [(1, PyStr ''abc'')], executed = []\<rparr>
        \<lparr>meta = [''md5'' \<mapsto> PyStr ''abc''], tags = [''a'' \<mapsto> 1], image_cache = None,
          cover_dir = ''covers'', zip_path = None\<rparr> [''a''])))
      (snd (snd (add_tags
        \<lparr>zipballs = [\<lparr>z_md5 = PyStr ''abc'', z_views = 0, z_tags = [''a'' \<mapsto> 1],
                       z_columns = Map.empty\<rparr>],
         tags_table = [(1, ''a'')], taggings = [(1, PyStr ''abc'')], executed = []\<rparr>
        \<lparr>meta = [''md5'' \<mapsto> PyStr ''abc''], tags = [''a'' \<mapsto> 1], image_cache = None,
          cover_dir = ''covers'', zip_path = None\<rparr> [''a''])))
      [''a'']))) ''a'' = None"
proof -
  let ?db = "\<lparr>zipballs = [\<lparr>z_md5 = PyStr ''abc'', z_views = 0, z_tags = [''a'' \<mapsto> 1::int],
                     z_columns = Map.empty\<rparr>],
       tags_table = [(1, ''a'')], taggings = [(1, PyStr ''abc'')], executed = []\<rparr>"
  let ?self = "\<lparr>meta = [''md5'' \<mapsto> PyStr ''abc''], tags = [''a'' \<mapsto> 1::int], image_cache = None,
        cover_dir = ''covers'', zip_path = None\<rparr>"
  let ?a = "add_tags ?db ?self [''a'']"
  have ne: "[''a''] \<noteq> []" by simp
  have md5: "meta ?self ''md5'' = Some (PyStr ''abc'')" by simp
  have c1: "tags ?self ''a'' = Some 1" by simp
  have rows: "select_tags [''a''] (insert_tags [''a''] ?db) = [(1, ''a'')]"
    by (simp add: select_tags_def insert_tags_def insert_tag_def query_def)
  have c2: "fst ?a = Inr (Some [(1, ''a'')])"
    unfolding add_tags_succeeds[OF ne md5] rows ..
  have c3: "tags (snd (snd ?a)) ''a'' = Some 1"
    unfolding add_tags_mapping(1)[OF ne] rows by (simp add: tags_dict_def)
  have md5': "meta (snd (snd ?a)) ''md5'' = Some (PyStr ''abc'')"
    unfolding add_tags_mapping(2)[OF ne] by simp
  have c4: "fst (remove_tags (fst (snd ?a)) (snd (snd ?a)) [''a'']) = Inr ()"
    using ne add_tags_dom[OF ne] md5' by (rule remove_tags_succeeds)
  have c5: "tags (snd (snd (remove_tags (fst (snd ?a)) (snd (snd ?a)) [''a'']))) ''a'' = None"
    unfolding tags_after_add_remove[OF ne] by simp
  from c1 c2 c3 c4 c5 show ?thesis by (intro conjI)
qed

theorem add_tags_then_remove_tags_witness:
  "\<exists>rows db1 self1 db2 self2.
      add_tags
        \<lparr>zipballs = [\<lparr>z_md5 = PyStr ''abc'', z_views = 0, z_tags = [''old'' \<mapsto> 1],
                       z_columns = Map.empty\<rparr>],
         tags_table = [(1, ''old'')], taggings = [(1, PyStr ''abc'')], executed = []\<rparr>
        \<lparr>meta = [''md5'' \<mapsto> PyStr ''abc''], tags = [''old'' \<mapsto> 1], image_cache = None,
          cover_dir = ''covers'', zip_path = None\<rparr> [''new''] = (Inr (Some rows), db1, self1) \<and>
      remove_tags db1 self1 [''new''] = (Inr (), db2, self2) \<and>
      tags self2 = [''old'' \<mapsto> 1]"
proof -
  let ?db = "\<lparr>zipballs = [\<lparr>z_md5 = PyStr ''abc'', z_views = 0, z_tags = [''old'' \<mapsto> 1::int],
                       z_columns = Map.empty\<rparr>],
         tags_table = [(1, ''old'')], taggings = [(1, PyStr ''abc'')], executed = []\<rparr>"
  let ?self = "\<lparr>meta = [''md5'' \<mapsto> PyStr ''abc''], tags = [''old'' \<mapsto> 1::int], image_cache = None,
          cover_dir = ''covers'', zip_path = None\<rparr>"
  have ne: "[''new''] \<noteq> []" by simp
  have md5: "meta ?self ''md5'' = Some (PyStr ''abc'')" by simp
  from add_tags_then_remove_tags[OF ne md5, of ?db]
  obtain rows db1 self1 db2 self2 where
    a: "add_tags ?db ?self [''new''] = (Inr (Some rows), db1, self1)"
    and r: "remove_tags db1 self1 [''new''] = (Inr (), db2, self2)"
    and d: "dom (tags ?self) \<inter> set [''new''] = {} \<longrightarrow> tags self2 = tags ?self"
    by (elim exE conjE)
  have "dom (tags ?self) \<inter> set [''new''] = {}" by simp
  with d have "tags self2 = tags ?self" by (rule mp)
  then have "tags self2 = [''old'' \<mapsto> 1]" by simp
  with a r show ?thesis by (intro exI conjI)
qed

end
